theory Spec2Isabelle
  imports Complex_Main "HOL-Library.Sublist" "HOL-Library.AList" "HOL-Library.Log_Nat"
begin

section \<open>Values of the Python program\<close>

text \<open>
  The program is \<^verbatim>\<open>src/DevCode/Modelbuilder_V2.py\<close>: the class \<^verbatim>\<open>Classifier\<close>, a
  training harness over torch. The embedding covers what the harness itself does: its
  bookkeeping of the best validation loss, the experiment's text log and the deletion of
  an experiment's files. The numerical work of torch (forward and backward passes, the
  optimizer's steps) is an input of the model: each epoch is given by the validation loss
  it produced.

  The exceptions the modelled code can raise. \<^verbatim>\<open>IOError\<close> is Python 3's alias of
  \<^verbatim>\<open>OSError\<close>; it carries the message the source builds.
\<close>

datatype error =
    ModelNotFoundError string
  | DataNotArrangedError
  | FeaturesNotProvidedError
  | FileNotFoundError
  | IOError string
  | IndexError
  | TypeError
  | ValueError
  | OverflowError

text \<open>
  A Python float, as far as the harness looks at it: the harness only compares floats and
  prints them. A finite double is the real number it denotes; the comparison \<^verbatim>\<open><=\<close> is
  IEEE's, false whenever an operand is NaN.
\<close>

datatype pyfloat = Finite real | PosInf | NegInf | NaN

fun fle :: "pyfloat \<Rightarrow> pyfloat \<Rightarrow> bool" where
  "fle NaN y = False"
| "fle x NaN = False"
| "fle NegInf y = True"
| "fle x PosInf = True"
| "fle (Finite a) (Finite b) = (a \<le> b)"
| "fle PosInf y = False"
| "fle x NegInf = False"

definition nl :: char where
  "nl = CHR 0x0A"

definition tab :: char where
  "tab = CHR 0x09"

definition bs :: char where
  "bs = CHR 0x5C"

text \<open>\<^verbatim>\<open>str(n)\<close> of a Python int: decimal digits, a minus sign for a negative number.\<close>

fun str_nat :: "nat \<Rightarrow> string" where
  "str_nat n = (if n < 10 then [''0123456789'' ! n]
                else str_nat (n div 10) @ [''0123456789'' ! (n mod 10)])"

declare str_nat.simps [simp del]

definition str_int :: "int \<Rightarrow> string" where
  "str_int i = (if i < 0 then CHR ''-'' # str_nat (nat (- i)) else str_nat (nat i))"

section \<open>The file system\<close>

text \<open>
  The files and directories the harness touches, by path. A path is the string the source
  builds (the source joins with a backslash, \<^term>\<open>bs\<close>). A file holds the text a
  text-mode \<^verbatim>\<open>open\<close> reads and writes. The directory tree is flat: a directory exists
  when its path is in \<^verbatim>\<open>dirs\<close>, and a path lies under a directory when the directory's
  path and a backslash start it.
\<close>

record fs =
  files :: "(string \<times> string) list"
  dirs :: "string list"

datatype 'a outcome = Returns 'a | Raises error fs

definition isdir :: "string \<Rightarrow> fs \<Rightarrow> bool" where
  "isdir p s = (p \<in> set (dirs s))"

definition makedirs :: "string \<Rightarrow> fs \<Rightarrow> fs" where
  "makedirs p s = s\<lparr>dirs := List.insert p (dirs s)\<rparr>"

definition read_text :: "string \<Rightarrow> fs \<Rightarrow> string option" where
  "read_text p s = map_of (files s) p"

definition is_file :: "string \<Rightarrow> fs \<Rightarrow> bool" where
  "is_file p s = (read_text p s \<noteq> None)"

definition write_text :: "string \<Rightarrow> string \<Rightarrow> fs \<Rightarrow> fs" where
  "write_text p txt s = s\<lparr>files := AList.update p txt (files s)\<rparr>"

definition os_remove :: "string \<Rightarrow> fs \<Rightarrow> fs" where
  "os_remove p s = s\<lparr>files := AList.delete p (files s)\<rparr>"

text \<open>
  \<^verbatim>\<open>shutil.rmtree(d)\<close>: removes the directory and all below it; \<^verbatim>\<open>None\<close> is the
  \<^verbatim>\<open>OSError\<close> of a directory that does not exist.
\<close>

definition rmtree :: "string \<Rightarrow> fs \<Rightarrow> fs option" where
  "rmtree d s =
     (if isdir d s
      then Some (s\<lparr>files := filter (\<lambda>(p, t). \<not> prefix (d @ [bs]) p) (files s),
                    dirs := filter (\<lambda>p. p \<noteq> d \<and> \<not> prefix (d @ [bs]) p) (dirs s)\<rparr>)
      else None)"

text \<open>
  \<^verbatim>\<open>glob.glob(d + '\\*.txt')\<close> for a directory \<^verbatim>\<open>d\<close> whose path holds none of the
  characters \<^verbatim>\<open>*\<close>, \<^verbatim>\<open>?\<close> and \<^verbatim>\<open>[\<close> (see \<^verbatim>\<open>glob_literal\<close>): the files directly
  in \<^verbatim>\<open>d\<close> whose name ends in \<^verbatim>\<open>.txt\<close> and does not start with a dot (glob leaves
  hidden files out). In a path that holds one of these characters glob reads a pattern
  for the directory too; that expansion is outside this definition, and what is proved
  of \<^verbatim>\<open>delete_file\<close> is proved for a \<^verbatim>\<open>Performance_dir\<close> that is \<^verbatim>\<open>glob_literal\<close>.
\<close>

definition glob_literal :: "string \<Rightarrow> bool" where
  "glob_literal d = list_all (\<lambda>c. c \<notin> set ''*?['') d"

definition txt_name :: "string \<Rightarrow> bool" where
  "txt_name n = (suffix ''.txt'' n \<and> \<not> prefix ''.'' n \<and> bs \<notin> set n \<and> CHR ''/'' \<notin> set n)"

definition glob_txt :: "string \<Rightarrow> fs \<Rightarrow> string list" where
  "glob_txt d s =
     filter (\<lambda>p. prefix (d @ [bs]) p \<and> txt_name (drop (length d + 1) p)) (map fst (files s))"

section \<open>Regular expressions and string replacement used by the log writer\<close>

text \<open>
  \<^verbatim>\<open>re.findall('.{15}', s)[0]\<close>: the first run of 15 characters none of which is a
  newline (the dot does not match a newline); \<^verbatim>\<open>None\<close> when \<^verbatim>\<open>findall\<close> returns the
  empty list.
\<close>

fun find_dot15 :: "string \<Rightarrow> string option" where
  "find_dot15 [] = None"
| "find_dot15 (c # cs) =
     (if 15 \<le> length (c # cs) \<and> nl \<notin> set (take 15 (c # cs)) then Some (take 15 (c # cs))
      else find_dot15 cs)"

text \<open>
  \<^verbatim>\<open>re.findall(ident + '.+', data)[0]\<close> for an \<^verbatim>\<open>ident\<close> that holds no character
  special to regular expressions (see \<^verbatim>\<open>regex_literal\<close> below): the leftmost place
  where \<^verbatim>\<open>ident\<close> stands and at least one more character follows on the same line; the
  match runs to the end of that line.
\<close>

fun find_ident_line :: "string \<Rightarrow> string \<Rightarrow> string option" where
  "find_ident_line ident [] = None"
| "find_ident_line ident (c # cs) =
     (if prefix ident (c # cs)
         \<and> takeWhile (\<lambda>x. x \<noteq> nl) (drop (length ident) (c # cs)) \<noteq> []
      then Some (ident @ takeWhile (\<lambda>x. x \<noteq> nl) (drop (length ident) (c # cs)))
      else find_ident_line ident cs)"

definition regex_literal :: "string \<Rightarrow> bool" where
  "regex_literal s = list_all (\<lambda>c. c \<notin> set (bs # ''.^$*+?{}[]|()'')) s"

text \<open>
  \<^verbatim>\<open>data.replace(old, new)\<close>: every occurrence of \<^verbatim>\<open>old\<close>, left to right, without
  overlap. The argument counts the characters of the current occurrence still to be
  skipped.
\<close>

fun replace_from :: "nat \<Rightarrow> string \<Rightarrow> string \<Rightarrow> string \<Rightarrow> string" where
  "replace_from k old new [] = (if old = [] then new else [])"
| "replace_from k old new (c # cs) =
     (if 0 < k then replace_from (k - 1) old new cs
      else if old = [] then new @ c # replace_from 0 old new cs
      else if prefix old (c # cs) then new @ replace_from (length old - 1) old new cs
      else c # replace_from 0 old new cs)"

definition str_replace :: "string \<Rightarrow> string \<Rightarrow> string \<Rightarrow> string" where
  "str_replace old new data = replace_from 0 old new data"

section \<open>The classifier object and its log writer\<close>

datatype arch = ResNet18 | ResNet50 | ResNet101 | ResNet152 | VGG16

datatype optimizer = Adam pyfloat | SGD pyfloat

datatype scheduler = StepLR int pyfloat | ReduceLROnPlateau pyfloat int pyfloat

record classifier =
  exp_no :: int
  Model_name :: string
  Dataset_dir :: string
  Performance_dir :: string
  device :: string
  TempNetwork :: "arch option"
  lr :: "pyfloat option"
  optimizer :: "optimizer option"
  scheduler :: "scheduler option"

text \<open>The argument \<^verbatim>\<open>lines: Union[str, List]\<close> of \<^verbatim>\<open>write_data\<close>.\<close>

datatype lines = Line string | Lines "string list"

definition separator :: string where
  "separator = nl # ''----------------------------------------------'' @ [nl, nl]"

definition Experiment_info_dir :: "classifier \<Rightarrow> string" where
  "Experiment_info_dir self = Performance_dir self @ bs # ''Exp_data''"

definition log_path :: "classifier \<Rightarrow> int \<Rightarrow> string" where
  "log_path self n = Experiment_info_dir self @ bs # ''Test Report_'' @ str_int n @ ''.txt''"

text \<open>
  The loop \<^verbatim>\<open>for line in lines\<close> of the append branch; the last argument is the text
  written to the file handle so far.
\<close>

fun write_each :: "bool \<Rightarrow> string list \<Rightarrow> string \<Rightarrow> string" where
  "write_each continuing [] out = out"
| "write_each continuing (line # rest) out =
     write_each continuing rest
       (if continuing then out @ line @ [nl] else (out @ line @ [nl]) @ separator)"

definition append_text :: "lines \<Rightarrow> bool \<Rightarrow> string" where
  "append_text ls continuing =
     (case ls of
        Lines xs \<Rightarrow>
          (if continuing then write_each continuing xs [] @ separator
           else write_each continuing xs [])
      | Line l \<Rightarrow> (if continuing then l @ [nl] else (l @ [nl]) @ separator))"

text \<open>
  \<^verbatim>\<open>write_data(lines, exp_no, continuing, replace)\<close>. Appending opens the file with
  \<^verbatim>\<open>"a+"\<close>, which creates it when it is missing. Replacing takes the identifier from the
  new line first, then opens the file for reading, and so fails on a short line before
  it fails on a missing file; \<^verbatim>\<open>re.findall\<close> on a list is a \<^verbatim>\<open>TypeError\<close>.
\<close>

definition write_data :: "classifier \<Rightarrow> lines \<Rightarrow> int \<Rightarrow> bool \<Rightarrow> bool \<Rightarrow> fs \<Rightarrow> fs outcome" where
  "write_data self ls n continuing replace s0 =
     (let s = (if isdir (Experiment_info_dir self) s0 then s0
               else makedirs (Experiment_info_dir self) s0);
          p = log_path self n
      in if \<not> replace then
           Returns (write_text p
             ((case read_text p s of None \<Rightarrow> [] | Some old \<Rightarrow> old) @ append_text ls continuing) s)
         else
           (case ls of
              Lines xs \<Rightarrow> Raises TypeError s
            | Line l \<Rightarrow>
               (case find_dot15 l of
                  None \<Rightarrow> Raises IndexError s
                | Some ident \<Rightarrow>
                   (case read_text p s of
                      None \<Rightarrow> Raises FileNotFoundError s
                    | Some data \<Rightarrow>
                       (case find_ident_line ident data of
                          None \<Rightarrow> Raises IndexError s
                        | Some old_string \<Rightarrow>
                            Returns (write_text p (str_replace old_string l data) s))))))"

section \<open>Deleting an experiment's files\<close>

definition model_stats_dir :: "classifier \<Rightarrow> int \<Rightarrow> string" where
  "model_stats_dir self n =
     Performance_dir self @ bs # ''Model_Stats'' @ bs # ''exp_'' @ str_int n"

text \<open>
  \<^verbatim>\<open>re.search('_' + str(exp_no), file)\<close>: the pattern holds an underscore, digits and
  at most a minus sign, none special to regular expressions, so the search is for the
  pattern as a substring, anywhere in the path.
\<close>

fun re_search :: "string \<Rightarrow> string \<Rightarrow> bool" where
  "re_search pat [] = (pat = [])"
| "re_search pat (c # cs) = (prefix pat (c # cs) \<or> re_search pat cs)"

text \<open>The loop \<^verbatim>\<open>for file in glob.glob(...)\<close> of \<^verbatim>\<open>delete_file\<close>.\<close>

fun remove_matching :: "int \<Rightarrow> string list \<Rightarrow> fs \<Rightarrow> fs" where
  "remove_matching n [] s = s"
| "remove_matching n (file # rest) s =
     remove_matching n rest
       (if re_search (CHR ''_'' # str_int n) file then os_remove file s else s)"

definition delete_file :: "classifier \<Rightarrow> int \<Rightarrow> bool \<Rightarrow> fs \<Rightarrow> fs outcome" where
  "delete_file self n stats_delete s0 =
     (let s = (if stats_delete
               then (case rmtree (model_stats_dir self n) s0 of None \<Rightarrow> s0 | Some s1 \<Rightarrow> s1)
               else s0)
      in if glob_txt (Experiment_info_dir self) s = [] then Raises FileNotFoundError s
         else Returns (remove_matching n (glob_txt (Experiment_info_dir self) s) s))"

section \<open>Construction, data split, backbone\<close>

definition Model_names :: "string list" where
  "Model_names = [''resnet18'', ''resnet50'', ''resnet101'', ''resnet152'']"

text \<open>
  \<^verbatim>\<open>Classifier.__init__\<close>. \<^verbatim>\<open>os.path.basename\<close> is a parameter: its result is only
  written into the log.
\<close>

definition Classifier_init ::
  "(string \<Rightarrow> string) \<Rightarrow> int \<Rightarrow> string \<Rightarrow> string \<Rightarrow> string \<Rightarrow> bool option \<Rightarrow> fs
     \<Rightarrow> (classifier \<times> fs) outcome" where
  "Classifier_init basename n model_to_train dataset_dir performance_dir gpu s =
     (if model_to_train \<notin> set Model_names
      then Raises (ModelNotFoundError (''No such model: '' @ model_to_train)) s
      else if \<not> isdir performance_dir s then Raises FileNotFoundError s
      else if \<not> isdir dataset_dir s then Raises FileNotFoundError s
      else
        (let self = \<lparr>exp_no = n, Model_name = model_to_train, Dataset_dir = dataset_dir,
                     Performance_dir = performance_dir,
                     device = (if gpu \<noteq> None then ''cuda'' else ''cpu''),
                     TempNetwork = None, lr = None, optimizer = None, scheduler = None\<rparr>
         in case write_data self
                   (Lines [''##############################################'',
                           tab # ''Model Data for experiment: '' @ str_int n,
                           tab # ''Model Trained: '' @ model_to_train,
                           tab # ''Data set used: '' @ basename dataset_dir,
                           ''##############################################''])
                   n True False s of
              Raises e s' \<Rightarrow> Raises e s'
            | Returns s' \<Rightarrow> Returns (self, s')))"

text \<open>
  Line 168 multiplies the float \<^verbatim>\<open>valid_size\<close> by the int \<^verbatim>\<open>len(train_data)\<close>. Where
  the harness does arithmetic on a float, the double is given exactly: a finite double by
  an integer mantissa \<^verbatim>\<open>m\<close> and an exponent \<^verbatim>\<open>e\<close>, the number \<^verbatim>\<open>m * 2 ** e\<close>
  (\<^verbatim>\<open>dval\<close>), with \<^verbatim>\<open>abs(m) < 2 ** 53\<close> and \<^verbatim>\<open>-1074 <= e <= 971\<close> (\<^verbatim>\<open>is_double\<close>).
\<close>

datatype double = Double int int | DInf | DNegInf | DNaN

definition is_double :: "int \<Rightarrow> int \<Rightarrow> bool" where
  "is_double m e = (\<bar>m\<bar> < 2 ^ 53 \<and> - 1074 \<le> e \<and> e \<le> 971)"

definition dval :: "int \<Rightarrow> int \<Rightarrow> real" where
  "dval m e = (if 0 \<le> e then of_int (m * 2 ^ nat e) else of_int m / 2 ^ nat (- e))"

text \<open>\<^verbatim>\<open>M / 2 ** k\<close> rounded to the nearest integer, a tie to the even one.\<close>

definition round_half_even :: "int \<Rightarrow> nat \<Rightarrow> int" where
  "round_half_even M k =
     (if 2 ^ k < 2 * (M mod 2 ^ k) \<or> (2 * (M mod 2 ^ k) = 2 ^ k \<and> odd (M div 2 ^ k))
      then M div 2 ^ k + 1 else M div 2 ^ k)"

text \<open>
  The double nearest to \<^verbatim>\<open>M * 2 ** e\<close>, a tie to the even mantissa, for \<^verbatim>\<open>e >= -1074\<close>:
  the mantissa keeps 53 bits (\<^verbatim>\<open>bitlen\<close> is Python's \<^verbatim>\<open>int.bit_length\<close>), and a result of
  \<^verbatim>\<open>2 ** 1024\<close> or more is an infinity.
\<close>

definition round53 :: "int \<Rightarrow> int \<Rightarrow> double" where
  "round53 M e =
     (let k = nat (bitlen \<bar>M\<bar> - 53); q = round_half_even M k
      in if 1024 < bitlen \<bar>q\<bar> + (e + int k) then (if 0 < M then DInf else DNegInf)
         else Double q (e + int k))"

text \<open>
  The conversion of a Python int to a float, which the product applies to its int
  operand: correctly rounded, an \<^verbatim>\<open>OverflowError\<close> when the int is too large.
\<close>

definition float_of_int :: "int \<Rightarrow> error + int \<times> int" where
  "float_of_int n =
     (case round53 n 0 of Double m e \<Rightarrow> Inr (m, e) | DInf \<Rightarrow> Inl OverflowError
      | DNegInf \<Rightarrow> Inl OverflowError | DNaN \<Rightarrow> Inl OverflowError)"

text \<open>
  \<^verbatim>\<open>valid_size * len(train_data)\<close>: the product of a double and a length. The exponent
  of the converted length is not negative, so the sum of the exponents stays at
  \<^verbatim>\<open>-1074\<close> or above.
\<close>

definition mul_by_len :: "double \<Rightarrow> nat \<Rightarrow> error + double" where
  "mul_by_len x n =
     (case float_of_int (int n) of
        Inl err \<Rightarrow> Inl err
      | Inr (m2, e2) \<Rightarrow>
          Inr (case x of
                 Double m e \<Rightarrow> round53 (m * m2) (e + e2)
               | DInf \<Rightarrow> (if m2 = 0 then DNaN else DInf)
               | DNegInf \<Rightarrow> (if m2 = 0 then DNaN else DNegInf)
               | DNaN \<Rightarrow> DNaN))"

text \<open>
  \<^verbatim>\<open>int(np.floor(x))\<close>: of a NaN a \<^verbatim>\<open>ValueError\<close>, of an infinity an
  \<^verbatim>\<open>OverflowError\<close>. The slices \<^verbatim>\<open>xs[k:]\<close> and \<^verbatim>\<open>xs[:k]\<close> count a negative \<^verbatim>\<open>k\<close> from
  the end and clip at both ends.
\<close>

definition int_floor :: "double \<Rightarrow> error + int" where
  "int_floor x =
     (case x of
        Double m e \<Rightarrow> Inr (if 0 \<le> e then m * 2 ^ nat e else m div 2 ^ nat (- e))
      | DNaN \<Rightarrow> Inl ValueError
      | DInf \<Rightarrow> Inl OverflowError | DNegInf \<Rightarrow> Inl OverflowError)"

definition slice_bound :: "'a list \<Rightarrow> int \<Rightarrow> nat" where
  "slice_bound xs k = nat (if k < 0 then max 0 (int (length xs) + k) else k)"

definition slice_from :: "'a list \<Rightarrow> int \<Rightarrow> 'a list" where
  "slice_from xs k = drop (slice_bound xs k) xs"

definition slice_to :: "'a list \<Rightarrow> int \<Rightarrow> 'a list" where
  "slice_to xs k = take (slice_bound xs k) xs"

text \<open>
  The split of \<^verbatim>\<open>load_data\<close> (lines 165 to 169). \<^verbatim>\<open>indices\<close> is the array after
  \<^verbatim>\<open>np.random.shuffle\<close>, so its length is \<^verbatim>\<open>len(train_data)\<close>. The result is
  \<^verbatim>\<open>(train_idx, valid_idx)\<close>.
\<close>

definition load_data_split :: "nat list \<Rightarrow> double \<Rightarrow> error + (nat list \<times> nat list)" where
  "load_data_split indices valid_size =
     (case mul_by_len valid_size (length indices) of
        Inl err \<Rightarrow> Inl err
      | Inr p \<Rightarrow>
         (case int_floor p of
            Inl err \<Rightarrow> Inl err
          | Inr split \<Rightarrow> Inr (slice_from indices split, slice_to indices split)))"

text \<open>The choice of the pretrained network in \<^verbatim>\<open>load_model\<close> (lines 219 to 226).\<close>

definition load_model_backbone :: "classifier \<Rightarrow> classifier" where
  "load_model_backbone self =
     (if Model_name self = ''resnet18'' then self\<lparr>TempNetwork := Some ResNet18\<rparr>
      else if Model_name self = ''resnet50'' then self\<lparr>TempNetwork := Some ResNet50\<rparr>
      else if Model_name self = ''resnet101'' then self\<lparr>TempNetwork := Some VGG16\<rparr>
      else if Model_name self = ''resnet152'' then self\<lparr>TempNetwork := Some ResNet101\<rparr>
      else self)"

section \<open>Optimizer and scheduler\<close>

text \<open>
  \<^verbatim>\<open>setup_optimization\<close>. \<^verbatim>\<open>str\<close> of a float is a parameter (\<^verbatim>\<open>str_float\<close>): it is
  only written into the log. The assignments to \<^verbatim>\<open>self.optimizer\<close> and
  \<^verbatim>\<open>self.scheduler\<close> are in the source's order: the one under the \<^verbatim>\<open>if\<close>, then the
  one that follows it unconditionally.
\<close>

definition setup_optimization ::
  "(pyfloat \<Rightarrow> string) \<Rightarrow> classifier \<Rightarrow> string \<Rightarrow> string \<Rightarrow> pyfloat \<Rightarrow> pyfloat \<Rightarrow> pyfloat
     \<Rightarrow> int \<Rightarrow> int \<Rightarrow> pyfloat \<Rightarrow> fs \<Rightarrow> (classifier \<times> fs) outcome" where
  "setup_optimization str_float self0 optimizer_name scheduler_name learning_rate factor
       threshold patience step_size gamma s0 =
     (let self1 = self0\<lparr>lr := Some learning_rate\<rparr>
      in case write_data self1
                (Lines [''Optimizer name: '' @ optimizer_name,
                        ''Scheduler name: '' @ scheduler_name,
                        ''Starting Learning rate: '' @ str_float learning_rate])
                (exp_no self1) True False s0 of
           Raises e s \<Rightarrow> Raises e s
         | Returns s1 \<Rightarrow>
            if optimizer_name \<notin> set [''adam'', ''SGD''] then
              (case delete_file self1 (exp_no self1) False s1 of
                 Raises e s \<Rightarrow> Raises e s
               | Returns s \<Rightarrow>
                   Raises (IOError (''Support only for Adam and SGD for now! Found: ''
                                     @ optimizer_name)) s)
            else if scheduler_name \<notin> set [''reduceOnPlateau'', ''StepLR''] then
              (case delete_file self1 (exp_no self1) False s1 of
                 Raises e s \<Rightarrow> Raises e s
               | Returns s \<Rightarrow>
                   Raises (IOError (''Support only for reduceOnPlateau and StepLR ''
                                     @ replicate 24 CHR '' '' @ ''for now! Found: ''
                                     @ scheduler_name)) s)
            else
              (let self2 = (if optimizer_name = ''adam''
                            then self1\<lparr>optimizer := Some (Adam learning_rate)\<rparr> else self1);
                   self3 = self2\<lparr>optimizer := Some (SGD learning_rate)\<rparr>
               in case (if scheduler_name = ''StepLR''
                        then (case write_data self3
                                     (Lines [''StepLR scheduler Parameters:-'',
                                             ''Step size: '' @ str_int step_size,
                                             ''Gamma: '' @ str_float gamma])
                                     (exp_no self3) True False s1 of
                                Raises e s \<Rightarrow> Raises e s
                              | Returns s \<Rightarrow>
                                  Returns (self3\<lparr>scheduler := Some (StepLR step_size gamma)\<rparr>, s))
                        else Returns (self3, s1)) of
                    Raises e s \<Rightarrow> Raises e s
                  | Returns (self4, s2) \<Rightarrow>
                     (let self5 = self4\<lparr>scheduler :=
                                     Some (ReduceLROnPlateau factor patience threshold)\<rparr>
                      in case write_data self5
                                (Lines [''reduceOnPlateau Scheduler parameters:-'',
                                        ''Factor: '' @ str_float factor,
                                        ''Threshold: '' @ str_float threshold,
                                        ''Patience: '' @ str_int patience])
                                (exp_no self5) True False s2 of
                           Raises e s \<Rightarrow> Raises e s
                         | Returns s3 \<Rightarrow> Returns (self5, s3))))"

section \<open>Training\<close>

text \<open>
  One epoch, as the harness sees it once torch has run the training and validation passes:
  the validation loss (already divided by the size of the validation sampler), the
  optimizer's current learning rate and the serialised parameters \<^verbatim>\<open>Net.state_dict()\<close>.
  \<^verbatim>\<open>range(1, n_epochs + 1)\<close> is the list of epochs; it is empty when \<^verbatim>\<open>n_epochs\<close> is not
  positive. A \<^verbatim>\<open>KeyboardInterrupt\<close> is not part of the model: a run is a run that is not
  interrupted.
\<close>

record epoch =
  valid_loss :: pyfloat
  cur_lr :: pyfloat
  state_dict :: string

text \<open>The local variables of \<^verbatim>\<open>train\<close> that live across epochs, and the disk.\<close>

record loop_state =
  valid_loss_min :: "pyfloat option"
  improvements :: nat
  disk :: fs

definition checkpoint_dir :: "classifier \<Rightarrow> string" where
  "checkpoint_dir self = Performance_dir self @ bs # ''Checkpoints''"

definition checkpoint_path :: "classifier \<Rightarrow> string" where
  "checkpoint_path self =
     checkpoint_dir self @ bs # Model_name self @ ''_'' @ str_int (exp_no self) @ ''.pth''"

text \<open>
  Lines 545 to 564: the comparison with the least validation loss seen and what follows
  it. \<^verbatim>\<open>valid_loss_min\<close> is \<^verbatim>\<open>None\<close> when the caller resumed from a previous checkpoint
  without a loss; comparing a float with \<^verbatim>\<open>None\<close> is a \<^verbatim>\<open>TypeError\<close>.
\<close>

definition epoch_step ::
  "(pyfloat \<Rightarrow> string) \<Rightarrow> classifier \<Rightarrow> epoch \<Rightarrow> loop_state \<Rightarrow> loop_state outcome" where
  "epoch_step str_float self e st =
     (case valid_loss_min st of
        None \<Rightarrow> Raises TypeError (disk st)
      | Some vmin \<Rightarrow>
         if fle (valid_loss e) vmin then
           (let s1 = write_text (checkpoint_path self) (state_dict e) (disk st);
                replace = (improvements st \<noteq> 0)
            in case write_data self (Line (''Previous Min Valid loss: '' @ str_float vmin))
                      (exp_no self) True replace s1 of
                 Raises err s \<Rightarrow> Raises err s
               | Returns s2 \<Rightarrow>
                  (case write_data self (Line (''Minimum Valid loss: '' @ str_float (valid_loss e)))
                          (exp_no self) False replace s2 of
                     Raises err s \<Rightarrow> Raises err s
                   | Returns s3 \<Rightarrow>
                      (case write_data self
                              (Line (''Best Learning rate that gave min valid loss: ''
                                      @ str_float (cur_lr e)))
                              (exp_no self) False replace s3 of
                         Raises err s \<Rightarrow> Raises err s
                       | Returns s4 \<Rightarrow>
                           Returns \<lparr>valid_loss_min = Some (valid_loss e),
                                    improvements = improvements st + 1, disk = s4\<rparr>)))
         else Returns st)"

fun train_loop ::
  "(pyfloat \<Rightarrow> string) \<Rightarrow> classifier \<Rightarrow> epoch list \<Rightarrow> loop_state \<Rightarrow> loop_state outcome" where
  "train_loop str_float self [] st = Returns st"
| "train_loop str_float self (e # es) st =
     (case epoch_step str_float self e st of
        Raises err s \<Rightarrow> Raises err s
      | Returns st' \<Rightarrow> train_loop str_float self es st')"

text \<open>
  Lines 417 to 439: where training starts from. \<^verbatim>\<open>torch.load\<close> of a path that is not a
  file is a \<^verbatim>\<open>FileNotFoundError\<close>. The result is the first \<^verbatim>\<open>valid_loss_min\<close>.
\<close>

definition train_start ::
  "classifier \<Rightarrow> string option \<Rightarrow> string option \<Rightarrow> pyfloat option \<Rightarrow> fs
     \<Rightarrow> (pyfloat option \<times> fs) outcome" where
  "train_start self custom_path load_prev valid_loss0 s =
     (case custom_path of
        Some cp \<Rightarrow>
          if \<not> is_file cp s then Raises FileNotFoundError s
          else if valid_loss0 = None then
            (case delete_file self (exp_no self) False s of
               Raises e s' \<Rightarrow> Raises e s'
             | Returns s' \<Rightarrow>
                 Raises (IOError
                   ''Expected Valid loss input when loading from custom path. Got None'') s')
          else
            (case write_data self (Line (''Model Loaded from Custom path: '' @ cp))
                    (exp_no self) False False s of
               Raises e s' \<Rightarrow> Raises e s'
             | Returns s' \<Rightarrow> Returns (valid_loss0, s'))
      | None \<Rightarrow>
         (case load_prev of
            Some lp \<Rightarrow>
              if \<not> is_file lp s then Raises FileNotFoundError s
              else
                (case write_data self (Line (''Model Loaded from previous checkpoint: '' @ lp))
                        (exp_no self) False False s of
                   Raises e s' \<Rightarrow> Raises e s'
                 | Returns s' \<Rightarrow> Returns (valid_loss0, s'))
          | None \<Rightarrow>
              (case write_data self (Line ''Trained From beginning'')
                      (exp_no self) False False s of
                 Raises e s' \<Rightarrow> Raises e s'
               | Returns s' \<Rightarrow> Returns (Some PosInf, s'))))"

text \<open>
  The \<^verbatim>\<open>write_data\<close> calls of the testing block (lines 578 to 664), each with its
  \<^verbatim>\<open>lines\<close> and its \<^verbatim>\<open>continuing\<close>: their text is torch's test result. All of them
  append.
\<close>

fun write_report :: "classifier \<Rightarrow> (lines \<times> bool) list \<Rightarrow> fs \<Rightarrow> fs outcome" where
  "write_report self [] s = Returns s"
| "write_report self ((ls, continuing) # rest) s =
     (case write_data self ls (exp_no self) continuing False s of
        Raises e s' \<Rightarrow> Raises e s'
      | Returns s' \<Rightarrow> write_report self rest s')"

text \<open>
  \<^verbatim>\<open>train\<close>. The result is the loop's last state, with the disk as \<^verbatim>\<open>train\<close> leaves
  it.
\<close>

definition train ::
  "(pyfloat \<Rightarrow> string) \<Rightarrow> classifier \<Rightarrow> epoch list \<Rightarrow> string option \<Rightarrow> string option
     \<Rightarrow> pyfloat option \<Rightarrow> (lines \<times> bool) list \<Rightarrow> fs \<Rightarrow> loop_state outcome" where
  "train str_float self epochs custom_path load_prev valid_loss0 test_report s0 =
     (let s1 = (if isdir (checkpoint_dir self) s0 then s0 else makedirs (checkpoint_dir self) s0)
      in case train_start self custom_path load_prev valid_loss0 s1 of
           Raises e s \<Rightarrow> Raises e s
         | Returns (vmin, s2) \<Rightarrow>
            (let s3 = (if isdir (model_stats_dir self (exp_no self)) s2 then s2
                       else makedirs (model_stats_dir self (exp_no self)) s2)
             in case train_loop str_float self epochs
                       \<lparr>valid_loss_min = vmin, improvements = 0, disk = s3\<rparr> of
                  Raises e s \<Rightarrow> Raises e s
                | Returns st \<Rightarrow>
                   if improvements st = 0 then
                     (case delete_file self (exp_no self) True (disk st) of
                        Raises e s \<Rightarrow> Raises e s
                      | Returns s \<Rightarrow> Returns (st\<lparr>disk := s\<rparr>))
                   else
                     (case write_report self test_report (disk st) of
                        Raises e s \<Rightarrow> Raises e s
                      | Returns s \<Rightarrow> Returns (st\<lparr>disk := s\<rparr>))))"

text \<open>
  The words of the specification for the replace operation: some line of the file has the
  same first 15 characters as the new line.
\<close>

definition lines_of :: "string \<Rightarrow> string list" where
  "lines_of data =
     foldr (\<lambda>c acc. if c = nl then [] # acc
                     else (case acc of [] \<Rightarrow> [[c]] | a # as \<Rightarrow> (c # a) # as))
       data [[]]"

definition spec_prefix_match :: "string \<Rightarrow> string \<Rightarrow> bool" where
  "spec_prefix_match new_line data = list_ex (\<lambda>old. take 15 old = take 15 new_line) (lines_of data)"

section \<open>Concrete inputs for the examples\<close>

definition example_classifier :: classifier where
  "example_classifier =
     \<lparr>exp_no = 1, Model_name = ''resnet18'', Dataset_dir = ''data'', Performance_dir = ''perf'',
      device = ''cpu'', TempNetwork = None, lr = None, optimizer = None, scheduler = None\<rparr>"

text \<open>A stand-in for \<^verbatim>\<open>str\<close> on the floats of the examples.\<close>

definition example_str_float :: "pyfloat \<Rightarrow> string" where
  "example_str_float x =
     (case x of PosInf \<Rightarrow> ''inf'' | NegInf \<Rightarrow> ''-inf'' | NaN \<Rightarrow> ''nan''
      | Finite r \<Rightarrow> (if r = 4 / 5 then ''0.8'' else if r = 1 / 2 then ''0.5'' else ''0.01''))"

definition example_disk :: fs where
  "example_disk = \<lparr>files = [(''old.pth'', ''w0'')], dirs = [''perf'', ''data'']\<rparr>"

section \<open>Facts about the file system and the log writer\<close>

lemma write_each_concat:
  "write_each continuing xs out =
     out @ concat (map (\<lambda>l. if continuing then l @ [nl] else l @ [nl] @ separator) xs)"
  by (induction xs arbitrary: out) auto

lemma read_write_text: "read_text q (write_text p t s) = (if q = p then Some t else read_text q s)"
  by (simp add: read_text_def write_text_def update_conv')

lemma read_text_makedirs: "read_text q (makedirs d s) = read_text q s"
  by (simp add: read_text_def makedirs_def)

section \<open>The backbone (C6)\<close>

text \<open>
  C6 says that \<^verbatim>\<open>load_model\<close> instantiates the pretrained network the name names. For
  the names \<^verbatim>\<open>resnet101\<close> and \<^verbatim>\<open>resnet152\<close> the code instantiates another network:
  \<^verbatim>\<open>models.vgg16\<close> and \<^verbatim>\<open>models.resnet101\<close>.
\<close>

theorem load_model_wrong_backbone:
  "TempNetwork (load_model_backbone (self\<lparr>Model_name := ''resnet101''\<rparr>)) = Some VGG16
   \<and> TempNetwork (load_model_backbone (self\<lparr>Model_name := ''resnet152''\<rparr>)) = Some ResNet101"
  by (simp add: load_model_backbone_def)

text \<open>The other half of C6 holds: a name outside the list stops the constructor.\<close>

lemma Classifier_init_unknown_model:
  "model_to_train \<notin> set Model_names \<Longrightarrow>
     Classifier_init basename n model_to_train dataset_dir performance_dir gpu s =
       Raises (ModelNotFoundError (''No such model: '' @ model_to_train)) s"
  by (simp add: Classifier_init_def)

section \<open>The optimizer and the scheduler (C2)\<close>

text \<open>
  C2 says that \<^verbatim>\<open>setup_optimization\<close> configures the optimizer and the scheduler the
  names ask for. Asked for \<^verbatim>\<open>adam\<close> and \<^verbatim>\<open>StepLR\<close>, the code returns with
  \<^verbatim>\<open>self.optimizer\<close> an SGD optimizer and \<^verbatim>\<open>self.scheduler\<close> a ReduceLROnPlateau
  scheduler: the assignments that follow the two \<^verbatim>\<open>if\<close> statements overwrite the
  choice.
\<close>

theorem setup_optimization_adam_StepLR:
  "\<exists>s'. setup_optimization str_float self ''adam'' ''StepLR'' learning_rate factor threshold
            patience step_size gamma s
         = Returns (self\<lparr>lr := Some learning_rate, optimizer := Some (SGD learning_rate),
                         scheduler := Some (ReduceLROnPlateau factor patience threshold)\<rparr>, s')"
  by (simp add: setup_optimization_def write_data_def Let_def)

section \<open>Appending to the log (C9)\<close>

text \<open>
  C9 as stated fails for a single line written with \<^verbatim>\<open>continuing\<close> set: the text
  appended is the line and its newline, with no separator after it.
\<close>

theorem write_data_single_continuing_no_separator:
  "read_text (log_path example_classifier 1)
     (case write_data example_classifier (Line ''Previous Min Valid loss: inf'') 1 True False
             example_disk of Returns s' \<Rightarrow> s' | Raises e s' \<Rightarrow> s')
     = Some (''Previous Min Valid loss: inf'' @ [nl])
   \<and> read_text (log_path example_classifier 1)
     (case write_data example_classifier (Line ''Previous Min Valid loss: inf'') 1 True False
             example_disk of Returns s' \<Rightarrow> s' | Raises e s' \<Rightarrow> s')
     \<noteq> Some (''Previous Min Valid loss: inf'' @ [nl] @ separator)"
proof -
  have "read_text (log_path example_classifier 1) example_disk = None"
    by (simp add: read_text_def example_disk_def log_path_def Experiment_info_dir_def
          example_classifier_def)
  then show ?thesis
    by (simp add: write_data_def Let_def append_text_def read_write_text read_text_makedirs
          separator_def)
qed

text \<open>
  C9, amended: an append call of \<^verbatim>\<open>write_data\<close> returns, and the log then holds its
  former text followed by the block. With \<^verbatim>\<open>continuing\<close> unset, a separator follows
  every line, of a list and of a single line alike. With \<^verbatim>\<open>continuing\<close> set, a list is
  written with no separator between its lines and one separator after the last, and a
  single line is written with no separator at all.
\<close>

theorem write_data_append_block:
  "\<exists>s'. write_data self ls n continuing False s = Returns s'
      \<and> read_text (log_path self n) s' =
          Some ((case read_text (log_path self n) s of None \<Rightarrow> [] | Some old \<Rightarrow> old) @
                (case ls of
                   Lines xs \<Rightarrow>
                     (if continuing then concat (map (\<lambda>l. l @ [nl]) xs) @ separator
                      else concat (map (\<lambda>l. l @ [nl] @ separator) xs))
                 | Line l \<Rightarrow> (if continuing then l @ [nl] else l @ [nl] @ separator)))"
  by (cases ls)
     (simp_all add: write_data_def Let_def append_text_def read_write_text read_text_makedirs
        write_each_concat)

section \<open>Replacing a line of the log (C3)\<close>

lemma read_write_text_same: "read_text p (write_text p t s) = Some t"
  by (simp add: read_write_text)

lemma find_dot15_SomeD:
  "find_dot15 l = Some i \<Longrightarrow> \<exists>pre post. l = pre @ i @ post \<and> length i = 15 \<and> nl \<notin> set i"
proof (induction l)
  case Nil
  then show ?case by simp
next
  case (Cons c cs)
  show ?case
  proof (cases "15 \<le> length (c # cs) \<and> nl \<notin> set (take 15 (c # cs))")
    case True
    with Cons.prems have i: "i = take 15 (c # cs)" by simp
    have "c # cs = [] @ i @ drop 15 (c # cs)" unfolding i by simp
    moreover have "length i = 15" using True unfolding i by simp
    moreover have "nl \<notin> set i" using True unfolding i by simp
    ultimately show ?thesis by blast
  next
    case False
    with Cons.prems have "find_dot15 cs = Some i" by (simp split: if_splits)
    from Cons.IH [OF this] obtain pre post where "cs = pre @ i @ post" "length i = 15" "nl \<notin> set i"
      by blast
    then have "c # cs = (c # pre) @ i @ post" by simp
    with \<open>length i = 15\<close> \<open>nl \<notin> set i\<close> show ?thesis by blast
  qed
qed

lemma find_dot15_found:
  "length w = 15 \<Longrightarrow> nl \<notin> set w \<Longrightarrow> find_dot15 (pre @ w @ post) \<noteq> None"
proof (induction pre)
  case Nil
  then show ?case by (cases w) auto
next
  case (Cons c pre)
  then show ?case by (simp del: take_Suc_Cons)
qed

lemma find_dot15_None_iff:
  "(find_dot15 l = None) = (\<not> (\<exists>pre w post. l = pre @ w @ post \<and> length w = 15 \<and> nl \<notin> set w))"
  using find_dot15_SomeD find_dot15_found by (cases "find_dot15 l") blast+

lemma find_dot15_prefix:
  "15 \<le> length l \<Longrightarrow> nl \<notin> set (take 15 l) \<Longrightarrow> find_dot15 l = Some (take 15 l)"
  by (cases l) auto

lemma takeWhile_nonempty_iff:
  "(takeWhile (\<lambda>x. x \<noteq> nl) xs \<noteq> []) = (\<exists>x post. xs = x # post \<and> x \<noteq> nl)"
  by (cases xs) auto

lemma find_ident_line_found:
  "x \<noteq> nl \<Longrightarrow> find_ident_line ident (pre @ ident @ x # post) \<noteq> None"
proof (induction pre)
  case Nil
  obtain c cs where e: "ident @ x # post = c # cs" by (cases "ident @ x # post") auto
  have p: "prefix ident (c # cs)" unfolding e [symmetric] by simp
  have d: "drop (length ident) (c # cs) = x # post" unfolding e [symmetric] by simp
  show ?case using Nil p d by (simp add: e)
next
  case (Cons c pre)
  then show ?case by simp
qed

lemma find_ident_line_SomeD:
  "find_ident_line ident data = Some old \<Longrightarrow>
     \<exists>pre x rest post. data = pre @ ident @ x # rest @ post \<and> x \<noteq> nl \<and> old = ident @ x # rest
        \<and> nl \<notin> set rest"
proof (induction data)
  case Nil
  then show ?case by simp
next
  case (Cons c cs)
  let ?tl = "drop (length ident) (c # cs)"
  let ?tw = "takeWhile (\<lambda>x. x \<noteq> nl) ?tl"
  show ?case
  proof (cases "prefix ident (c # cs) \<and> ?tw \<noteq> []")
    case True
    with Cons.prems have old: "old = ident @ ?tw" by simp
    from True obtain x rest where tw: "?tw = x # rest" by (cases ?tw) auto
    have xin: "x \<in> set ?tw" "set rest \<subseteq> set ?tw" using tw by auto
    have "x \<noteq> nl" using xin(1) by (auto dest: set_takeWhileD)
    moreover have "nl \<notin> set rest" using xin(2) by (auto dest: set_takeWhileD)
    moreover have "c # cs = ident @ ?tl" using True by (auto simp: prefix_def)
    then have "c # cs = [] @ ident @ x # rest @ dropWhile (\<lambda>x. x \<noteq> nl) ?tl"
      using tw takeWhile_dropWhile_id [of "\<lambda>x. x \<noteq> nl" ?tl] by (metis append.assoc append_Cons append_Nil)
    ultimately show ?thesis using old tw by blast
  next
    case False
    with Cons.prems have "find_ident_line ident cs = Some old" by (auto split: if_splits)
    from Cons.IH [OF this] obtain pre x rest post where
      "cs = pre @ ident @ x # rest @ post" "x \<noteq> nl" "old = ident @ x # rest" "nl \<notin> set rest" by blast
    then have "c # cs = (c # pre) @ ident @ x # rest @ post" by simp
    with \<open>x \<noteq> nl\<close> \<open>old = ident @ x # rest\<close> \<open>nl \<notin> set rest\<close> show ?thesis by blast
  qed
qed

lemma find_ident_line_None_iff:
  "(find_ident_line ident data = None) =
     (\<not> (\<exists>pre x post. data = pre @ ident @ x # post \<and> x \<noteq> nl))"
proof (cases "find_ident_line ident data")
  case None
  then show ?thesis using find_ident_line_found by metis
next
  case (Some old)
  from find_ident_line_SomeD [OF this] obtain pre x rest post where
    "data = pre @ ident @ x # rest @ post" "x \<noteq> nl" by blast
  then show ?thesis using Some by auto
qed


lemma write_data_replace_unfold:
  "write_data self (Line l) n c True s =
     (case find_dot15 l of
        None \<Rightarrow> Raises IndexError
                  (if isdir (Experiment_info_dir self) s then s
                   else makedirs (Experiment_info_dir self) s)
      | Some ident \<Rightarrow>
         (case read_text (log_path self n) s of
            None \<Rightarrow> Raises FileNotFoundError
                      (if isdir (Experiment_info_dir self) s then s
                       else makedirs (Experiment_info_dir self) s)
          | Some data \<Rightarrow>
             (case find_ident_line ident data of
                None \<Rightarrow> Raises IndexError
                          (if isdir (Experiment_info_dir self) s then s
                           else makedirs (Experiment_info_dir self) s)
              | Some old_string \<Rightarrow>
                  Returns (write_text (log_path self n) (str_replace old_string l data)
                            (if isdir (Experiment_info_dir self) s then s
                             else makedirs (Experiment_info_dir self) s)))))"
  by (simp add: write_data_def Let_def read_text_makedirs split: option.splits)

text \<open>
  C3 as stated fails in both directions. No line of the log starts with the first 15
  characters of the new line, and yet the replace returns: the search is for the
  identifier anywhere in the text, and here it finds it in the middle of a line. And a
  line of the log does start with these 15 characters, and yet the replace raises: the
  pattern asks for one more character on the line, and the line has none. The error of
  a missing match is the \<^verbatim>\<open>IndexError\<close> of \<^verbatim>\<open>[0]\<close> on an empty list.
\<close>

theorem write_data_replace_not_by_line_prefix:
  "\<not> spec_prefix_match ''Previous Min Valid loss: 2'' (''xxPrevious Min Valid loss: 1'' @ [nl])
   \<and> write_data example_classifier (Line ''Previous Min Valid loss: 2'') 1 False True
        (write_text (log_path example_classifier 1)
           (''xxPrevious Min Valid loss: 1'' @ [nl]) example_disk)
      = Returns (write_text (log_path example_classifier 1)
                  (''xxPrevious Min Valid loss: 2'' @ [nl])
                  (makedirs (Experiment_info_dir example_classifier)
                     (write_text (log_path example_classifier 1)
                        (''xxPrevious Min Valid loss: 1'' @ [nl]) example_disk)))
   \<and> spec_prefix_match ''Previous Min Valid loss: 2'' (''Previous Min Va'' @ [nl])
   \<and> write_data example_classifier (Line ''Previous Min Valid loss: 2'') 1 False True
        (write_text (log_path example_classifier 1) (''Previous Min Va'' @ [nl]) example_disk)
      = Raises IndexError
          (makedirs (Experiment_info_dir example_classifier)
             (write_text (log_path example_classifier 1) (''Previous Min Va'' @ [nl])
                example_disk))"
proof -
  have nd: "\<not> isdir (Experiment_info_dir example_classifier) (write_text p t example_disk)" for p t
    by (simp add: isdir_def write_text_def example_disk_def Experiment_info_dir_def
          example_classifier_def)
  have a: "\<not> spec_prefix_match ''Previous Min Valid loss: 2'' (''xxPrevious Min Valid loss: 1'' @ [nl])"
    by code_simp
  have b: "spec_prefix_match ''Previous Min Valid loss: 2'' (''Previous Min Va'' @ [nl])"
    by code_simp
  have f: "find_dot15 ''Previous Min Valid loss: 2'' = Some ''Previous Min Va''" by code_simp
  have g: "find_ident_line ''Previous Min Va'' (''xxPrevious Min Valid loss: 1'' @ [nl])
             = Some ''Previous Min Valid loss: 1''" by code_simp
  have h: "find_ident_line ''Previous Min Va'' (''Previous Min Va'' @ [nl]) = None"
    by code_simp
  have r: "str_replace ''Previous Min Valid loss: 1'' ''Previous Min Valid loss: 2''
             (''xxPrevious Min Valid loss: 1'' @ [nl]) = ''xxPrevious Min Valid loss: 2'' @ [nl]"
    by code_simp
  have w1: "write_data example_classifier (Line ''Previous Min Valid loss: 2'') 1 False True
        (write_text (log_path example_classifier 1)
           (''xxPrevious Min Valid loss: 1'' @ [nl]) example_disk)
      = Returns (write_text (log_path example_classifier 1)
                  (''xxPrevious Min Valid loss: 2'' @ [nl])
                  (makedirs (Experiment_info_dir example_classifier)
                     (write_text (log_path example_classifier 1)
                        (''xxPrevious Min Valid loss: 1'' @ [nl]) example_disk)))"
    by (simp only: write_data_replace_unfold f option.case read_write_text_same if_True g r nd if_False)
  have w2: "write_data example_classifier (Line ''Previous Min Valid loss: 2'') 1 False True
        (write_text (log_path example_classifier 1) (''Previous Min Va'' @ [nl]) example_disk)
      = Raises IndexError
          (makedirs (Experiment_info_dir example_classifier)
             (write_text (log_path example_classifier 1) (''Previous Min Va'' @ [nl])
                example_disk))"
    by (simp only: write_data_replace_unfold f option.case read_write_text_same if_True h nd if_False)
  from a b w1 w2 show ?thesis by (intro conjI)
qed

text \<open>
  C3, amended. The replace operation (\<^verbatim>\<open>write_data\<close> with \<^verbatim>\<open>replace\<close> set, on a
  string) takes as identifier the first run of 15 characters of the new line that holds
  no newline: the first 15 characters of the line when these hold none. It raises
  \<^verbatim>\<open>IndexError\<close> when the new line has no such run. Otherwise, for an identifier free
  of characters special to regular expressions, it raises \<^verbatim>\<open>FileNotFoundError\<close> exactly
  when the experiment's log file does not exist, it raises \<^verbatim>\<open>IndexError\<close> exactly when
  the file exists and nowhere holds the identifier followed by a character other than a
  newline, and it returns in the remaining case.
\<close>

theorem write_data_replace_outcomes:
  "(find_dot15 l = None \<longrightarrow>
      (\<exists>s'. write_data self (Line l) n c True s = Raises IndexError s'))
   \<and> (\<forall>ident. find_dot15 l = Some ident \<and> regex_literal ident \<longrightarrow>
        ((\<exists>s'. write_data self (Line l) n c True s = Raises FileNotFoundError s')
           = (\<not> is_file (log_path self n) s))
      \<and> ((\<exists>s'. write_data self (Line l) n c True s = Raises IndexError s')
           = (\<exists>data. read_text (log_path self n) s = Some data
                \<and> \<not> (\<exists>pre x post. data = pre @ ident @ x # post \<and> x \<noteq> nl)))
      \<and> ((\<exists>s'. write_data self (Line l) n c True s = Returns s')
           = (\<exists>data. read_text (log_path self n) s = Some data
                \<and> (\<exists>pre x post. data = pre @ ident @ x # post \<and> x \<noteq> nl))))
   \<and> ((find_dot15 l = None)
        = (\<not> (\<exists>pre w post. l = pre @ w @ post \<and> length w = 15 \<and> nl \<notin> set w)))
   \<and> (15 \<le> length l \<and> nl \<notin> set (take 15 l) \<longrightarrow> find_dot15 l = Some (take 15 l))"
proof (intro conjI allI impI)
  assume "find_dot15 l = None"
  then show "\<exists>s'. write_data self (Line l) n c True s = Raises IndexError s'"
    by (simp add: write_data_replace_unfold)
next
  fix ident
  assume a: "find_dot15 l = Some ident \<and> regex_literal ident"
  show "(\<exists>s'. write_data self (Line l) n c True s = Raises FileNotFoundError s')
          = (\<not> is_file (log_path self n) s)"
    using a by (auto simp: write_data_replace_unfold is_file_def split: option.splits)
next
  fix ident
  assume a: "find_dot15 l = Some ident \<and> regex_literal ident"
  show "(\<exists>s'. write_data self (Line l) n c True s = Raises IndexError s')
          = (\<exists>data. read_text (log_path self n) s = Some data
               \<and> \<not> (\<exists>pre x post. data = pre @ ident @ x # post \<and> x \<noteq> nl))"
  proof (cases "read_text (log_path self n) s")
    case None
    then show ?thesis using a by (simp add: write_data_replace_unfold)
  next
    case (Some data)
    show ?thesis
    proof (cases "find_ident_line ident data")
      case None
      then show ?thesis
        using a Some find_ident_line_None_iff [of ident data]
        by (simp add: write_data_replace_unfold)
    next
      case (Some old)
      then show ?thesis
        using a \<open>read_text (log_path self n) s = Some data\<close>
          find_ident_line_None_iff [of ident data]
        by (simp add: write_data_replace_unfold)
    qed
  qed
next
  fix ident
  assume a: "find_dot15 l = Some ident \<and> regex_literal ident"
  show "(\<exists>s'. write_data self (Line l) n c True s = Returns s')
          = (\<exists>data. read_text (log_path self n) s = Some data
               \<and> (\<exists>pre x post. data = pre @ ident @ x # post \<and> x \<noteq> nl))"
  proof (cases "read_text (log_path self n) s")
    case None
    then show ?thesis using a by (simp add: write_data_replace_unfold)
  next
    case (Some data)
    show ?thesis
    proof (cases "find_ident_line ident data")
      case None
      then show ?thesis
        using a Some find_ident_line_None_iff [of ident data]
        by (simp add: write_data_replace_unfold)
    next
      case (Some old)
      then show ?thesis
        using a \<open>read_text (log_path self n) s = Some data\<close>
          find_ident_line_None_iff [of ident data]
        by (simp add: write_data_replace_unfold)
    qed
  qed
next
  show "(find_dot15 l = None)
          = (\<not> (\<exists>pre w post. l = pre @ w @ post \<and> length w = 15 \<and> nl \<notin> set w))"
    by (rule find_dot15_None_iff)
next
  assume "15 \<le> length l \<and> nl \<notin> set (take 15 l)"
  then show "find_dot15 l = Some (take 15 l)" by (simp add: find_dot15_prefix)
qed

theorem write_data_replace_outcomes_witness:
  "find_dot15 ''Previous Min Valid loss: 0.5'' = Some ''Previous Min Va''
   \<and> regex_literal ''Previous Min Va''
   \<and> 15 \<le> length ''Previous Min Valid loss: 0.5''
   \<and> nl \<notin> set (take 15 ''Previous Min Valid loss: 0.5'')
   \<and> is_file (log_path example_classifier 1)
        (write_text (log_path example_classifier 1)
          (''Previous Min Valid loss: inf'' @ [nl]) example_disk)
   \<and> (\<exists>s'. write_data example_classifier (Line ''Previous Min Valid loss: 0.5'') 1 True True
              (write_text (log_path example_classifier 1)
                (''Previous Min Valid loss: inf'' @ [nl]) example_disk) = Returns s')"
proof -
  let ?l = "''Previous Min Valid loss: 0.5''"
  let ?s = "write_text (log_path example_classifier 1)
              (''Previous Min Valid loss: inf'' @ [nl]) example_disk"
  have f: "find_dot15 ?l = Some ''Previous Min Va''" by code_simp
  have r: "regex_literal ''Previous Min Va''" by code_simp
  have len: "15 \<le> length ?l" by code_simp
  have nonl: "nl \<notin> set (take 15 ?l)" by code_simp
  have rd: "read_text (log_path example_classifier 1) ?s
              = Some (''Previous Min Valid loss: inf'' @ [nl])"
    by (rule read_write_text_same)
  have occ: "''Previous Min Valid loss: inf'' @ [nl]
               = [] @ ''Previous Min Va'' @ CHR ''l'' # (''id loss: inf'' @ [nl])"
    by code_simp
  have x: "CHR ''l'' \<noteq> nl" by code_simp
  have ex: "\<exists>data. read_text (log_path example_classifier 1) ?s = Some data
                \<and> (\<exists>pre x post. data = pre @ ''Previous Min Va'' @ x # post \<and> x \<noteq> nl)"
    by (intro exI conjI) (rule rd, rule occ, rule x)
  have fr: "find_dot15 ?l = Some ''Previous Min Va'' \<and> regex_literal ''Previous Min Va''"
    using f r by (rule conjI)
  have "(\<exists>s'. write_data example_classifier (Line ?l) 1 True True ?s = Returns s')
          = (\<exists>data. read_text (log_path example_classifier 1) ?s = Some data
                \<and> (\<exists>pre x post. data = pre @ ''Previous Min Va'' @ x # post \<and> x \<noteq> nl))"
    using write_data_replace_outcomes [of ?l example_classifier 1 True ?s,
        THEN conjunct2, THEN conjunct1, THEN spec, THEN mp, OF fr,
        THEN conjunct2, THEN conjunct2] .
  then have ret: "\<exists>s'. write_data example_classifier (Line ?l) 1 True True ?s = Returns s'"
    using ex by (rule iffD2)
  have isf: "is_file (log_path example_classifier 1) ?s"
    unfolding is_file_def rd by (rule option.distinct(2))
  show ?thesis
    by (intro conjI) (rule f, rule r, rule len, rule nonl, rule isf, rule ret)
qed

section \<open>The validation split (C7)\<close>

lemma slice_to_from_append: "slice_to xs k @ slice_from xs k = xs"
  by (simp add: slice_to_def slice_from_def)

lemma slice_disjoint: "distinct xs \<Longrightarrow> set (slice_from xs k) \<inter> set (slice_to xs k) = {}"
  unfolding slice_to_def slice_from_def
  using set_take_disj_set_drop_if_distinct [of xs "slice_bound xs k" "slice_bound xs k"]
  by auto

lemma slice_union: "set (slice_from xs k) \<union> set (slice_to xs k) = set xs"
proof -
  have "set (slice_to xs k @ slice_from xs k) = set xs" by (simp only: slice_to_from_append)
  then show ?thesis by auto
qed

lemma round_half_even_le:
  assumes "M \<le> z * 2 ^ k"
  shows "round_half_even M k \<le> z"
proof -
  have d: "M div 2 ^ k \<le> z"
    using zdiv_mono1 [of M "z * 2 ^ k" "2 ^ k"] assms by simp
  show ?thesis
  proof (cases "M mod 2 ^ k = 0")
    case True
    then show ?thesis using d by (simp add: round_half_even_def)
  next
    case False
    have "0 \<le> M mod (2 ^ k :: int)" by simp
    with False have pos: "0 < M mod (2 ^ k :: int)" by arith
    have "M = (M div 2 ^ k) * 2 ^ k + M mod 2 ^ k" by (rule div_mult_mod_eq [symmetric])
    then have "(M div 2 ^ k) * 2 ^ k < M" using pos by linarith
    then have "(M div 2 ^ k) * 2 ^ k < z * 2 ^ k" using assms by linarith
    then have "M div 2 ^ k < z" by (simp add: mult_less_cancel_right)
    then show ?thesis by (simp add: round_half_even_def)
  qed
qed

lemma round_half_even_nonneg: "0 \<le> M \<Longrightarrow> 0 \<le> round_half_even M k"
  by (simp add: round_half_even_def pos_imp_zdiv_nonneg_iff)

lemma round_half_even_0 [simp]: "round_half_even M 0 = M"
  by (simp add: round_half_even_def)

lemma float_of_int_exact:
  assumes "0 \<le> n" and "n < 2 ^ 53"
  shows "float_of_int n = Inr (n, 0)"
proof -
  have b: "bitlen n \<le> 53" using assms(2) by (simp add: bitlen_le_iff_power)
  have a: "\<bar>n\<bar> = n" using assms(1) by simp
  show ?thesis using b by (simp add: float_of_int_def round53_def a Let_def)
qed

lemma floor_dval:
  "\<lfloor>dval q k\<rfloor> = (if 0 \<le> k then q * 2 ^ nat k else q div 2 ^ nat (- k))"
proof (cases "0 \<le> k")
  case True
  then show ?thesis by (simp only: dval_def if_True floor_of_int)
next
  case False
  have "\<lfloor>real_of_int q / 2 ^ nat (- k)\<rfloor> = \<lfloor>real_of_int q / real_of_int (2 ^ nat (- k))\<rfloor>"
    by simp
  also have "\<dots> = q div 2 ^ nat (- k)" by (rule floor_divide_of_int_eq)
  finally show ?thesis using False by (simp add: dval_def)
qed

lemma int_floor_Double: "int_floor (Double q k) = Inr \<lfloor>dval q k\<rfloor>"
  by (simp add: int_floor_def floor_dval)

lemma round_half_even_cases:
  "round_half_even M k = M div 2 ^ k \<or> round_half_even M k = M div 2 ^ k + 1"
  by (simp add: round_half_even_def)

lemma round_half_even_dvd: "2 ^ k dvd M \<Longrightarrow> round_half_even M k = M div 2 ^ k"
  by (simp add: round_half_even_def mod_eq_0_iff_dvd)

lemma round53_small:
  assumes "bitlen \<bar>M\<bar> \<le> 53" and "bitlen \<bar>M\<bar> + e \<le> 1024"
  shows "round53 M e = Double M e"
  using assms by (simp add: round53_def Let_def)

lemma div_succ_bounds:
  fixes d :: int
  assumes "0 < b"
  shows "d div b \<le> (d + 1) div b" and "(d + 1) div b \<le> d div b + 1"
proof -
  show "d div b \<le> (d + 1) div b" using assms by (simp add: zdiv_mono1)
  have "(d + 1) div b \<le> (d + b) div b" using assms by (intro zdiv_mono1) simp_all
  also have "\<dots> = d div b + 1" using assms by simp
  finally show "(d + 1) div b \<le> d div b + 1" .
qed

lemma floor_dval_neg: "\<lfloor>dval q (- int a)\<rfloor> = q div 2 ^ a"
  by (cases "a = 0") (simp_all add: floor_dval)

lemma round53_split:
  assumes M: "0 < M" and le: "M \<le> n * 2 ^ a" and n: "n < 2 ^ 53"
  shows "\<exists>q K. round53 M (- int a) = Double q K
           \<and> \<lfloor>dval q K\<rfloor> \<le> n
           \<and> M div 2 ^ a \<le> \<lfloor>dval q K\<rfloor>
           \<and> \<lfloor>dval q K\<rfloor> \<le> M div 2 ^ a + 1
           \<and> (2 ^ a dvd M \<longrightarrow> \<lfloor>dval q K\<rfloor> = M div 2 ^ a)"
proof (cases "bitlen M \<le> 53")
  case True
  have abs: "\<bar>M\<bar> = M" using M by simp
  have r: "round53 M (- int a) = Double M (- int a)"
    using True by (intro round53_small) (simp_all add: abs)
  have f: "\<lfloor>dval M (- int a)\<rfloor> = M div 2 ^ a"
    by (rule floor_dval_neg)
  have "M div 2 ^ a \<le> (n * 2 ^ a) div 2 ^ a" using le by (intro zdiv_mono1) simp_all
  then have "M div 2 ^ a \<le> n" by simp
  then show ?thesis using r f by simp
next
  case False
  define k where "k = nat (bitlen M - 53)"
  have abs: "\<bar>M\<bar> = M" using M by simp
  have bl: "bitlen M = 53 + int k" using False by (simp add: k_def)
  have kpos: "0 < k" using False by (simp add: k_def)
  have lo: "2 ^ (52 + k) \<le> M"
  proof -
    have "2 ^ nat (bitlen M - 1) \<le> M" using bitlen_bounds [OF M] by simp
    moreover have "nat (bitlen M - 1) = 52 + k" using bl by simp
    ultimately show ?thesis by simp
  qed
  have "n * 2 ^ a < 2 ^ 53 * (2 ^ a :: int)" using n by simp
  with le have "M < 2 ^ 53 * 2 ^ a" by (rule le_less_trans)
  then have "M < 2 ^ (53 + a)" by (simp only: power_add)
  then have "(2::int) ^ (52 + k) < 2 ^ (53 + a)" using lo by linarith
  then have "52 + k < 53 + a" by (simp only: power_strict_increasing_iff [of "2::int"] one_less_numeral_iff semiring_norm)
  then have ka: "k \<le> a" by simp
  define j where "j = a - k"
  have a: "a = k + j" using ka by (simp add: j_def)
  define q where "q = round_half_even M k"
  define d where "d = M div 2 ^ k"
  have "n * 2 ^ a = (n * 2 ^ j) * 2 ^ k" by (simp add: a power_add)
  with le have "M \<le> (n * 2 ^ j) * 2 ^ k" by simp
  then have qle: "q \<le> n * 2 ^ j"
    unfolding q_def by (rule round_half_even_le)
  have qc: "q = d \<or> q = d + 1" unfolding q_def d_def by (rule round_half_even_cases)
  have dpos: "0 < d"
  proof -
    have "(2::int) ^ k \<le> 2 ^ (52 + k)" by (intro power_increasing) simp_all
    then have "2 ^ k \<le> M" using lo by linarith
    then have "2 ^ k div 2 ^ k \<le> M div (2 ^ k :: int)" by (intro zdiv_mono1) simp_all
    then show ?thesis by (simp add: d_def)
  qed
  have qpos: "0 < q" using qc dpos by auto
  have "n * 2 ^ j < 2 ^ 53 * (2 ^ j :: int)" using n by simp
  with qle have "q < 2 ^ 53 * 2 ^ j" by (rule le_less_trans)
  then have "q < 2 ^ (53 + j)" by (simp only: power_add)
  moreover have "nat (53 + int j) = 53 + j" by (simp add: nat_add_distrib)
  ultimately have bq: "bitlen q \<le> 53 + int j"
    by (simp add: bitlen_le_iff_power)
  have K: "int k - int a = - int j" using a by simp
  have r: "round53 M (- int a) = Double q (- int j)"
    using bq qpos by (simp add: round53_def Let_def abs k_def [symmetric] q_def [symmetric] K)
  have f: "\<lfloor>dval q (- int j)\<rfloor> = q div 2 ^ j"
    by (rule floor_dval_neg)
  have x: "M div 2 ^ a = d div 2 ^ j"
    by (simp add: a power_add d_def zdiv_zmult2_eq)
  have "q div 2 ^ j \<le> (n * 2 ^ j) div 2 ^ j" using qle by (intro zdiv_mono1) simp_all
  then have b1: "q div 2 ^ j \<le> n" by simp
  have b2: "d div 2 ^ j \<le> q div 2 ^ j"
    using qc div_succ_bounds(1) [of "2 ^ j" d] by auto
  have b3: "q div 2 ^ j \<le> d div 2 ^ j + 1"
    using qc div_succ_bounds(2) [of "2 ^ j" d] by auto
  have b4: "2 ^ a dvd M \<longrightarrow> q div 2 ^ j = d div 2 ^ j"
  proof
    assume "2 ^ a dvd M"
    moreover have "(2::int) ^ k dvd 2 ^ a" using ka by (simp add: le_imp_power_dvd)
    ultimately have "2 ^ k dvd M" by (rule dvd_trans [rotated])
    then have "q = d" unfolding q_def d_def by (rule round_half_even_dvd)
    then show "q div 2 ^ j = d div 2 ^ j" by simp
  qed
  show ?thesis using r f x b1 b2 b3 b4 by simp
qed

lemma dval_neg: "dval m (- int a) = of_int m / 2 ^ a"
  by (cases "a = 0") (simp_all add: dval_def)

lemma mul_by_len_Double:
  "int N < 2 ^ 53 \<Longrightarrow> mul_by_len (Double m e) N = Inr (round53 (m * int N) e)"
  by (simp add: mul_by_len_def float_of_int_exact)

lemma load_data_split_append:
  "load_data_split indices x = Inr (tr, va) \<Longrightarrow> va @ tr = indices"
  by (auto simp: load_data_split_def slice_to_from_append split: sum.splits)

lemma mul_by_len_floor_zero:
  assumes d: "is_double m e" and N: "int N < 2 ^ 53" and z: "m * int N = 0"
  shows "mul_by_len (Double m e) N = Inr (Double 0 e) \<and> dval 0 e = 0 \<and> dval m e * real N = 0"
proof -
  have e: "e \<le> 1024" using d by (simp add: is_double_def)
  have b1: "bitlen \<bar>0::int\<bar> \<le> 53" by simp
  have b2: "bitlen \<bar>0::int\<bar> + e \<le> 1024" using e by simp
  have r: "round53 (m * int N) e = Double 0 e"
    unfolding z using b1 b2 by (rule round53_small)
  have z0: "dval 0 e = 0" by (simp add: dval_def)
  have "m = 0 \<or> N = 0" using z by simp
  then have x: "dval m e * real N = 0" using z0 by auto
  have mb: "mul_by_len (Double m e) N = Inr (Double 0 e)"
    using mul_by_len_Double [OF N, of m e] r by simp
  show ?thesis using mb z0 x by (intro conjI)
qed

lemma dval_gt_1:
  assumes mpos: "0 < m" and p: "0 < e"
  shows "2 \<le> dval m e"
proof -
  have "nat e = Suc (nat e - 1)" using p by simp
  then have "(2::int) ^ nat e = 2 ^ Suc (nat e - 1)" by simp
  then have "(2::int) ^ nat e = 2 * 2 ^ (nat e - 1)" by (simp only: power_Suc)
  moreover have "(1::int) \<le> 2 ^ (nat e - 1)" by simp
  ultimately have "(2::int) \<le> 2 ^ nat e" by linarith
  moreover have "(1::int) \<le> m" using mpos by simp
  ultimately have "2 * 1 \<le> 2 ^ nat e * m" by (intro mult_mono) simp_all
  then have "(2::int) \<le> m * 2 ^ nat e" by (simp add: mult.commute)
  then have "real_of_int 2 \<le> of_int (m * 2 ^ nat e)" by (simp only: of_int_le_iff)
  then show ?thesis using p by (simp add: dval_def)
qed

lemma mul_by_len_floor_pos:
  assumes mpos: "0 < m" and Npos: "0 < int N" and f: "dval m e \<le> 1" and N: "int N < 2 ^ 53"
  shows "\<exists>q K. mul_by_len (Double m e) N = Inr (Double q K)
           \<and> 0 \<le> \<lfloor>dval q K\<rfloor> \<and> \<lfloor>dval q K\<rfloor> \<le> int N
           \<and> \<lfloor>dval m e * real N\<rfloor> \<le> \<lfloor>dval q K\<rfloor>
           \<and> \<lfloor>dval q K\<rfloor> \<le> \<lfloor>dval m e * real N\<rfloor> + 1
           \<and> ((\<exists>z. dval m e * real N = of_int z) \<longrightarrow> \<lfloor>dval q K\<rfloor> = \<lfloor>dval m e * real N\<rfloor>)"
proof -
  have M: "0 < m * int N" using mpos Npos by simp
  have e: "e \<le> 0"
  proof (rule ccontr)
    assume "\<not> e \<le> 0"
    then have "0 < e" by simp
    with mpos have "2 \<le> dval m e" by (rule dval_gt_1)
    then show False using f by simp
  qed
  define a where "a = nat (- e)"
  have ea: "e = - int a" using e by (simp add: a_def)
  have v: "dval m e = of_int m / 2 ^ a" unfolding ea by (rule dval_neg)
  have "of_int m \<le> (2::real) ^ a" using f by (simp add: v)
  then have "of_int m \<le> (of_int (2 ^ a) :: real)" by simp
  then have ma: "m \<le> 2 ^ a" by (simp only: of_int_le_iff)
  have "int N * m \<le> int N * 2 ^ a" using ma Npos by (intro mult_left_mono) simp_all
  then have le: "m * int N \<le> int N * 2 ^ a" by (simp only: mult.commute [of m "int N"])
  have x: "dval m e * real N = of_int (m * int N) / of_int (2 ^ a)" by (simp add: v)
  have fx: "\<lfloor>dval m e * real N\<rfloor> = (m * int N) div 2 ^ a"
    unfolding x by (rule floor_divide_of_int_eq)
  have ex: "(\<exists>z. dval m e * real N = of_int z) \<longrightarrow> 2 ^ a dvd m * int N"
  proof
    assume "\<exists>z. dval m e * real N = of_int z"
    then obtain z where "dval m e * real N = of_int z" ..
    then have "real_of_int (m * int N) / of_int (2 ^ a) = of_int z" by (simp only: x)
    then have "real_of_int (m * int N) = of_int z * of_int (2 ^ a)"
      by (simp add: divide_eq_eq)
    then have "real_of_int (m * int N) = of_int (z * 2 ^ a)" by simp
    then have "m * int N = z * 2 ^ a" by (simp only: of_int_eq_iff)
    then show "2 ^ a dvd m * int N" by simp
  qed
  from round53_split [OF M le N] obtain q K where
    all: "round53 (m * int N) (- int a) = Double q K
      \<and> \<lfloor>dval q K\<rfloor> \<le> int N
      \<and> (m * int N) div 2 ^ a \<le> \<lfloor>dval q K\<rfloor>
      \<and> \<lfloor>dval q K\<rfloor> \<le> (m * int N) div 2 ^ a + 1
      \<and> (2 ^ a dvd m * int N \<longrightarrow> \<lfloor>dval q K\<rfloor> = (m * int N) div 2 ^ a)"
    by (elim exE)
  from all have r: "round53 (m * int N) (- int a) = Double q K" by (rule conjunct1)
  from all have b1: "\<lfloor>dval q K\<rfloor> \<le> int N" by (elim conjE)
  from all have b2: "(m * int N) div 2 ^ a \<le> \<lfloor>dval q K\<rfloor>" by (elim conjE)
  from all have b3: "\<lfloor>dval q K\<rfloor> \<le> (m * int N) div 2 ^ a + 1" by (elim conjE)
  from all have b4: "2 ^ a dvd m * int N \<longrightarrow> \<lfloor>dval q K\<rfloor> = (m * int N) div 2 ^ a"
    by (elim conjE)
  have "0 \<le> (m * int N) div 2 ^ a" using M by (simp add: pos_imp_zdiv_nonneg_iff)
  then have b0: "0 \<le> \<lfloor>dval q K\<rfloor>" using b2 by linarith
  have mb: "mul_by_len (Double m e) N = Inr (Double q K)"
    using mul_by_len_Double [OF N, of m e] r by (simp add: ea)
  have b5: "(\<exists>z. dval m e * real N = of_int z) \<longrightarrow> \<lfloor>dval q K\<rfloor> = (m * int N) div 2 ^ a"
  proof
    assume "\<exists>z. dval m e * real N = of_int z"
    with ex have "2 ^ a dvd m * int N" by (rule mp)
    with b4 show "\<lfloor>dval q K\<rfloor> = (m * int N) div 2 ^ a" by (rule mp)
  qed
  show ?thesis
    unfolding fx by (intro exI conjI) (rule mb, rule b0, rule b1, rule b2, rule b3, rule b5)
qed

lemma mul_by_len_floor:
  assumes d: "is_double m e" and m: "0 \<le> m" and f: "dval m e \<le> 1" and N: "int N < 2 ^ 53"
  shows "\<exists>q K. mul_by_len (Double m e) N = Inr (Double q K)
           \<and> 0 \<le> \<lfloor>dval q K\<rfloor> \<and> \<lfloor>dval q K\<rfloor> \<le> int N
           \<and> \<lfloor>dval m e * real N\<rfloor> \<le> \<lfloor>dval q K\<rfloor>
           \<and> \<lfloor>dval q K\<rfloor> \<le> \<lfloor>dval m e * real N\<rfloor> + 1
           \<and> ((\<exists>z. dval m e * real N = of_int z) \<longrightarrow> \<lfloor>dval q K\<rfloor> = \<lfloor>dval m e * real N\<rfloor>)"
proof (cases "m * int N = 0")
  case True
  note zc = mul_by_len_floor_zero [OF d N True]
  have mb: "mul_by_len (Double m e) N = Inr (Double 0 e)" using zc by (rule conjunct1)
  have z: "dval 0 e = 0" using zc [THEN conjunct2] by (rule conjunct1)
  have x: "dval m e * real N = 0" using zc [THEN conjunct2] by (rule conjunct2)
  have fz: "\<lfloor>dval 0 e\<rfloor> = 0" by (simp only: z floor_zero)
  have fx: "\<lfloor>dval m e * real N\<rfloor> = 0" by (simp only: x floor_zero)
  have c1: "0 \<le> \<lfloor>dval 0 e\<rfloor>" by (simp only: fz)
  have c2: "\<lfloor>dval 0 e\<rfloor> \<le> int N" unfolding fz by simp
  have c3: "\<lfloor>dval m e * real N\<rfloor> \<le> \<lfloor>dval 0 e\<rfloor>" by (simp only: fz fx)
  have c4: "\<lfloor>dval 0 e\<rfloor> \<le> \<lfloor>dval m e * real N\<rfloor> + 1" unfolding fz fx by simp
  have c5: "(\<exists>z. dval m e * real N = of_int z) \<longrightarrow> \<lfloor>dval 0 e\<rfloor> = \<lfloor>dval m e * real N\<rfloor>"
    unfolding fz fx by (rule impI) (rule refl)
  from mb c1 c2 c3 c4 c5 show ?thesis by (intro exI conjI)
next
  case False
  then have m0: "m \<noteq> 0" and N0: "N \<noteq> 0" by simp_all
  from m0 m have "0 < m" by linarith
  moreover from N0 have "0 < int N" by simp
  ultimately show ?thesis using f N by (rule mul_by_len_floor_pos)
qed

lemma load_data_split_Double:
  assumes "mul_by_len x (length indices) = Inr (Double q K)"
  shows "load_data_split indices x
           = Inr (slice_from indices \<lfloor>dval q K\<rfloor>, slice_to indices \<lfloor>dval q K\<rfloor>)"
  by (simp add: load_data_split_def assms int_floor_Double)

lemma slice_lengths:
  assumes "0 \<le> k" and "k \<le> int (length xs)"
  shows "int (length (slice_to xs k)) = k"
    and "length (slice_from xs k) = length xs - length (slice_to xs k)"
    and "length (slice_to xs k) \<le> length xs"
  using assms by (simp_all add: slice_to_def slice_from_def slice_bound_def)

text \<open>
  C7 says that the validation set has \<^verbatim>\<open>floor(f * N)\<close> indices. Line 168 takes the floor
  of the product computed in double arithmetic, which is rounded before the floor. For
  \<^verbatim>\<open>valid_size = 0.3\<close>, the double \<^verbatim>\<open>5404319552844595 * 2 ** -54\<close>, just below three
  tenths, and ten training examples, the product is the double \<^verbatim>\<open>3.0\<close>: the validation
  set gets three indices, while the floor of the fraction times ten is two.
\<close>

theorem load_data_split_not_floor:
  "is_double 5404319552844595 (- 54)
   \<and> mul_by_len (Double 5404319552844595 (- 54)) (length [3, 1, 4, 0, 2, 9, 8, 7, 6, 5 :: nat])
        = Inr (Double 6755399441055744 (- 51))
   \<and> load_data_split [3, 1, 4, 0, 2, 9, 8, 7, 6, 5] (Double 5404319552844595 (- 54))
        = Inr ([0, 2, 9, 8, 7, 6, 5], [3, 1, 4])
   \<and> \<lfloor>dval 5404319552844595 (- 54) * real (length [3, 1, 4, 0, 2, 9, 8, 7, 6, 5 :: nat])\<rfloor> = 2"
proof -
  have t1: "is_double 5404319552844595 (- 54)" by (simp add: is_double_def)
  have t2: "mul_by_len (Double 5404319552844595 (- 54))
              (length [3, 1, 4, 0, 2, 9, 8, 7, 6, 5 :: nat])
              = Inr (Double 6755399441055744 (- 51))"
    by code_simp
  have t3: "load_data_split [3, 1, 4, 0, 2, 9, 8, 7, 6, 5] (Double 5404319552844595 (- 54))
              = Inr ([0, 2, 9, 8, 7, 6, 5], [3, 1, 4])"
    by code_simp
  have "dval 5404319552844595 (- 54) * real (length [3, 1, 4, 0, 2, 9, 8, 7, 6, 5 :: nat])
          = real_of_int 54043195528445950 / real_of_int 18014398509481984"
    by (simp add: dval_def)
  also have "\<lfloor>\<dots>\<rfloor> = 54043195528445950 div 18014398509481984"
    by (rule floor_divide_of_int_eq)
  also have "\<dots> = 2" by simp
  finally have t4: "\<lfloor>dval 5404319552844595 (- 54)
                      * real (length [3, 1, 4, 0, 2, 9, 8, 7, 6, 5 :: nat])\<rfloor> = 2" .
  from t1 t2 t3 t4 show ?thesis by (intro conjI)
qed

text \<open>
  C7, amended. For every shuffled index array, whatever \<^verbatim>\<open>valid_size\<close> is, a split that
  returns gives two slices of the array: the validation indices followed by the training
  indices are the array, so the two sets together are all the indices, and they are
  disjoint when the array holds no index twice. For a fraction \<^verbatim>\<open>f\<close> that is a double with
  \<^verbatim>\<open>0 <= f <= 1\<close> and fewer than \<^verbatim>\<open>2 ** 53\<close> training examples the split returns, and
  the validation set has \<^verbatim>\<open>floor(p)\<close> indices, where \<^verbatim>\<open>p\<close> is the double nearest to
  \<^verbatim>\<open>f * N\<close>: that is \<^verbatim>\<open>floor(f * N)\<close> or one more, never more than \<^verbatim>\<open>N\<close>, and exactly
  \<^verbatim>\<open>floor(f * N)\<close> when \<^verbatim>\<open>f * N\<close> is a whole number; the training set has the other
  \<^verbatim>\<open>N - floor(p)\<close> indices.
\<close>

theorem load_data_split_sizes:
  "(\<forall>x tr va. load_data_split indices x = Inr (tr, va) \<longrightarrow>
       va @ tr = indices \<and> set tr \<union> set va = set indices
       \<and> (distinct indices \<longrightarrow> set tr \<inter> set va = {}))
   \<and> (is_double m e \<and> 0 \<le> m \<and> dval m e \<le> 1 \<and> int (length indices) < 2 ^ 53 \<longrightarrow>
       (\<exists>q K tr va.
          mul_by_len (Double m e) (length indices) = Inr (Double q K)
          \<and> load_data_split indices (Double m e) = Inr (tr, va)
          \<and> int (length va) = \<lfloor>dval q K\<rfloor>
          \<and> length tr = length indices - length va
          \<and> length va \<le> length indices
          \<and> \<lfloor>dval m e * real (length indices)\<rfloor> \<le> int (length va)
          \<and> int (length va) \<le> \<lfloor>dval m e * real (length indices)\<rfloor> + 1
          \<and> ((\<exists>z. dval m e * real (length indices) = of_int z)
                \<longrightarrow> int (length va) = \<lfloor>dval m e * real (length indices)\<rfloor>)))"
proof (intro conjI allI impI)
  fix x tr va
  assume a: "load_data_split indices x = Inr (tr, va)"
  then show app: "va @ tr = indices" by (rule load_data_split_append)
  then have "set (va @ tr) = set indices" by simp
  then show "set tr \<union> set va = set indices" by auto
  assume "distinct indices"
  then have "distinct (va @ tr)" by (simp only: app)
  then show "set tr \<inter> set va = {}" by auto
next
  assume h: "is_double m e \<and> 0 \<le> m \<and> dval m e \<le> 1 \<and> int (length indices) < 2 ^ 53"
  then have d: "is_double m e" and m: "0 \<le> m" and f: "dval m e \<le> 1"
    and N: "int (length indices) < 2 ^ 53" by simp_all
  from mul_by_len_floor [OF d m f N] obtain q K where
    all: "mul_by_len (Double m e) (length indices) = Inr (Double q K)
           \<and> 0 \<le> \<lfloor>dval q K\<rfloor> \<and> \<lfloor>dval q K\<rfloor> \<le> int (length indices)
           \<and> \<lfloor>dval m e * real (length indices)\<rfloor> \<le> \<lfloor>dval q K\<rfloor>
           \<and> \<lfloor>dval q K\<rfloor> \<le> \<lfloor>dval m e * real (length indices)\<rfloor> + 1
           \<and> ((\<exists>z. dval m e * real (length indices) = of_int z)
                 \<longrightarrow> \<lfloor>dval q K\<rfloor> = \<lfloor>dval m e * real (length indices)\<rfloor>)"
    by (elim exE)
  define k where "k = \<lfloor>dval q K\<rfloor>"
  note all' = all [folded k_def]
  have mb: "mul_by_len (Double m e) (length indices) = Inr (Double q K)"
    using all' by (rule conjunct1)
  have k0: "0 \<le> k" using all' by (elim conjE)
  have kN: "k \<le> int (length indices)" using all' by (elim conjE)
  have lo: "\<lfloor>dval m e * real (length indices)\<rfloor> \<le> k" using all' by (elim conjE)
  have hi: "k \<le> \<lfloor>dval m e * real (length indices)\<rfloor> + 1" using all' by (elim conjE)
  have ex: "(\<exists>z. dval m e * real (length indices) = of_int z)
              \<longrightarrow> k = \<lfloor>dval m e * real (length indices)\<rfloor>" using all' by (elim conjE)
  have len: "int (length (slice_to indices k)) = k" using k0 kN by (rule slice_lengths(1))
  have sp: "load_data_split indices (Double m e)
              = Inr (slice_from indices k, slice_to indices k)"
    unfolding k_def using mb by (rule load_data_split_Double)
  have c3: "int (length (slice_to indices k)) = \<lfloor>dval q K\<rfloor>" using len by (simp only: k_def)
  have c4: "length (slice_from indices k) = length indices - length (slice_to indices k)"
    using k0 kN by (rule slice_lengths(2))
  have c5: "length (slice_to indices k) \<le> length indices" using k0 kN by (rule slice_lengths(3))
  have c6: "\<lfloor>dval m e * real (length indices)\<rfloor> \<le> int (length (slice_to indices k))"
    using lo by (simp only: len)
  have c7: "int (length (slice_to indices k)) \<le> \<lfloor>dval m e * real (length indices)\<rfloor> + 1"
    using hi by (simp only: len)
  have c8: "(\<exists>z. dval m e * real (length indices) = of_int z)
              \<longrightarrow> int (length (slice_to indices k)) = \<lfloor>dval m e * real (length indices)\<rfloor>"
    using ex by (simp only: len)
  from mb sp c3 c4 c5 c6 c7 c8
  show "\<exists>q K tr va.
          mul_by_len (Double m e) (length indices) = Inr (Double q K)
          \<and> load_data_split indices (Double m e) = Inr (tr, va)
          \<and> int (length va) = \<lfloor>dval q K\<rfloor>
          \<and> length tr = length indices - length va
          \<and> length va \<le> length indices
          \<and> \<lfloor>dval m e * real (length indices)\<rfloor> \<le> int (length va)
          \<and> int (length va) \<le> \<lfloor>dval m e * real (length indices)\<rfloor> + 1
          \<and> ((\<exists>z. dval m e * real (length indices) = of_int z)
                \<longrightarrow> int (length va) = \<lfloor>dval m e * real (length indices)\<rfloor>)"
    by (intro exI conjI)
qed

theorem load_data_split_sizes_witness:
  "is_double 3602879701896397 (- 54) \<and> 0 \<le> (3602879701896397 :: int)
   \<and> dval 3602879701896397 (- 54) \<le> 1
   \<and> int (length [2, 0, 3, 1, 4 :: nat]) < 2 ^ 53
   \<and> distinct [2, 0, 3, 1, 4 :: nat]
   \<and> load_data_split [2, 0, 3, 1, 4] (Double 3602879701896397 (- 54))
        = Inr ([0, 3, 1, 4], [2])
   \<and> set [0, 3, 1, 4 :: nat] \<inter> set [2] = {}
   \<and> (\<exists>q K tr va.
          mul_by_len (Double 3602879701896397 (- 54)) (length [2, 0, 3, 1, 4 :: nat])
            = Inr (Double q K)
          \<and> load_data_split [2, 0, 3, 1, 4] (Double 3602879701896397 (- 54)) = Inr (tr, va)
          \<and> int (length va) = \<lfloor>dval q K\<rfloor>
          \<and> length tr = length [2, 0, 3, 1, 4 :: nat] - length va
          \<and> length va \<le> length [2, 0, 3, 1, 4 :: nat]
          \<and> \<lfloor>dval 3602879701896397 (- 54) * real (length [2, 0, 3, 1, 4 :: nat])\<rfloor>
               \<le> int (length va)
          \<and> int (length va)
               \<le> \<lfloor>dval 3602879701896397 (- 54) * real (length [2, 0, 3, 1, 4 :: nat])\<rfloor> + 1
          \<and> ((\<exists>z. dval 3602879701896397 (- 54) * real (length [2, 0, 3, 1, 4 :: nat])
                       = of_int z)
                \<longrightarrow> int (length va)
                     = \<lfloor>dval 3602879701896397 (- 54) * real (length [2, 0, 3, 1, 4 :: nat])\<rfloor>))"
proof -
  let ?idx = "[2, 0, 3, 1, 4 :: nat]"
  have h1: "is_double 3602879701896397 (- 54)" by (simp add: is_double_def)
  have h2: "0 \<le> (3602879701896397 :: int)" by simp
  have h3: "dval 3602879701896397 (- 54) \<le> 1" by (simp add: dval_def)
  have h4: "int (length ?idx) < 2 ^ 53" by simp
  have h: "is_double 3602879701896397 (- 54) \<and> 0 \<le> (3602879701896397 :: int)
             \<and> dval 3602879701896397 (- 54) \<le> 1 \<and> int (length ?idx) < 2 ^ 53"
    using h1 h2 h3 h4 by (intro conjI)
  have di: "distinct ?idx" by simp
  have sp: "load_data_split ?idx (Double 3602879701896397 (- 54)) = Inr ([0, 3, 1, 4], [2])"
    by code_simp
  note th = load_data_split_sizes [of ?idx 3602879701896397 "- 54"]
  note c = th [THEN conjunct2, THEN mp, OF h]
  note p = th [THEN conjunct1, THEN spec, THEN spec, THEN spec, THEN mp, OF sp,
      THEN conjunct2, THEN conjunct2, THEN mp, OF di]
  from h1 h2 h3 h4 di sp p c show ?thesis by (intro conjI)
qed

section \<open>Deleting the log; an unsupported optimizer\<close>

lemma str_nat_chars: "set (str_nat n) \<subseteq> set ''0123456789''"
proof (induction n rule: str_nat.induct)
  case (1 n)
  have d: "''0123456789'' ! k \<in> set ''0123456789''" if "k < 10" for k
    using that nth_mem [of k "''0123456789''"] by simp
  show ?case
  proof (cases "n < 10")
    case True
    then show ?thesis using d [of n] by (subst str_nat.simps) simp
  next
    case False
    have m: "n mod 10 < 10" by simp
    show ?thesis using False 1 d [OF m] by (subst str_nat.simps) simp
  qed
qed

lemma str_int_chars: "set (str_int i) \<subseteq> set ''-0123456789''"
proof -
  have sub: "set ''0123456789'' \<subseteq> set ''-0123456789''" by (rule set_subset_Cons)
  have n: "set (str_nat k) \<subseteq> set ''-0123456789''" for k
    using str_nat_chars [of k] sub by (rule order_trans)
  have m: "CHR ''-'' \<in> set ''-0123456789''" by (rule list.set_intros(1))
  show ?thesis
  proof (cases "i < 0")
    case True
    then have "str_int i = CHR ''-'' # str_nat (nat (- i))" by (simp only: str_int_def if_True)
    then show ?thesis using n [of "nat (- i)"] m by (simp only: list.set(2) insert_subset)
  next
    case False
    then have "str_int i = str_nat (nat i)" by (simp only: str_int_def if_False)
    then show ?thesis using n [of "nat i"] by (simp only:)
  qed
qed

lemma str_int_no_sep: "bs \<notin> set (str_int i) \<and> CHR ''/'' \<notin> set (str_int i)"
proof -
  have a: "bs \<notin> set ''-0123456789''" by code_simp
  have b: "CHR ''/'' \<notin> set ''-0123456789''" by code_simp
  show ?thesis using a b str_int_chars [of i] by blast
qed

lemma txt_name_log: "txt_name (''Test Report_'' @ str_int n @ ''.txt'')"
proof -
  have "suffix ''.txt'' (''Test Report_'' @ str_int n @ ''.txt'')"
    by (simp only: suffix_def) (rule exI [of _ "''Test Report_'' @ str_int n"], simp)
  moreover have "\<not> prefix ''.'' (''Test Report_'' @ str_int n @ ''.txt'')" by simp
  moreover have "bs \<notin> set ''Test Report_''" by code_simp
  moreover have "bs \<notin> set ''.txt''" by code_simp
  ultimately show ?thesis using str_int_no_sep [of n] by (simp add: txt_name_def)
qed

lemma log_path_in_glob:
  assumes "is_file (log_path self n) s"
  shows "log_path self n \<in> set (glob_txt (Experiment_info_dir self) s)"
proof -
  have "log_path self n \<in> fst ` set (files s)"
    using assms by (simp add: is_file_def read_text_def map_of_eq_None_iff)
  moreover have "prefix (Experiment_info_dir self @ [bs]) (log_path self n)"
    by (simp add: log_path_def)
  moreover have "drop (length (Experiment_info_dir self) + 1) (log_path self n)
                   = ''Test Report_'' @ str_int n @ ''.txt''"
    by (simp add: log_path_def)
  ultimately show ?thesis using txt_name_log [of n] by (simp add: glob_txt_def)
qed

lemma re_search_prefix: "prefix pat xs \<Longrightarrow> re_search pat xs"
  by (cases xs) auto

lemma re_search_here: "re_search pat (pat @ ys)"
  by (rule re_search_prefix) simp

lemma re_search_append: "re_search pat (xs @ pat @ ys)"
  by (induction xs) (simp_all add: re_search_here)

lemma re_search_log_path: "re_search (CHR ''_'' # str_int n) (log_path self n)"
proof -
  have "log_path self n
          = (Experiment_info_dir self @ bs # ''Test Report'') @ (CHR ''_'' # str_int n) @ ''.txt''"
    by (simp add: log_path_def)
  then show ?thesis by (simp only: re_search_append)
qed

lemma read_text_os_remove:
  "read_text p (os_remove q s) = (if p = q then None else read_text p s)"
  by (auto simp: read_text_def os_remove_def delete_conv)

lemma read_text_remove_matching:
  "read_text p (remove_matching n found s)
     = (if p \<in> set found \<and> re_search (CHR ''_'' # str_int n) p then None else read_text p s)"
  by (induction found arbitrary: s) (auto simp: read_text_os_remove)

lemma dirs_remove_matching: "dirs (remove_matching n found s) = dirs s"
  by (induction found arbitrary: s) (auto simp: os_remove_def)

lemma delete_file_removes_log:
  assumes "delete_file self n stats_delete s = Returns s'"
  shows "\<not> is_file (log_path self n) s'"
proof -
  define s1 where "s1 = (if stats_delete
               then (case rmtree (model_stats_dir self n) s of None \<Rightarrow> s | Some t \<Rightarrow> t)
               else s)"
  have s': "s' = remove_matching n (glob_txt (Experiment_info_dir self) s1) s1"
    using assms by (simp add: delete_file_def Let_def s1_def split: if_splits)
  show ?thesis
  proof (cases "is_file (log_path self n) s1")
    case True
    then show ?thesis
      using log_path_in_glob [OF True] re_search_log_path [of n self]
      by (simp add: s' is_file_def read_text_remove_matching)
  next
    case False
    then show ?thesis by (simp add: s' is_file_def read_text_remove_matching)
  qed
qed

lemma delete_file_removes_stats:
  assumes "delete_file self n True s = Returns s'"
  shows "\<not> isdir (model_stats_dir self n) s'"
proof -
  define s1 where "s1 = (case rmtree (model_stats_dir self n) s of None \<Rightarrow> s | Some t \<Rightarrow> t)"
  have s': "s' = remove_matching n (glob_txt (Experiment_info_dir self) s1) s1"
    using assms by (simp add: delete_file_def Let_def s1_def split: if_splits)
  have "\<not> isdir (model_stats_dir self n) s1"
    by (auto simp: s1_def rmtree_def isdir_def split: option.splits if_splits)
  then show ?thesis by (simp add: s' isdir_def dirs_remove_matching)
qed

lemma delete_file_keep_stats_returns:
  assumes "is_file (log_path self n) s"
  shows "\<exists>s'. delete_file self n False s = Returns s'"
  using log_path_in_glob [OF assms] by (auto simp: delete_file_def)

lemma write_data_append_eq:
  "write_data self ls n continuing False s =
     Returns (write_text (log_path self n)
       ((case read_text (log_path self n) s of None \<Rightarrow> [] | Some old \<Rightarrow> old)
          @ append_text ls continuing)
       (if isdir (Experiment_info_dir self) s then s else makedirs (Experiment_info_dir self) s))"
  by (simp add: write_data_def Let_def read_text_makedirs)

lemma write_data_append_is_file:
  "write_data self ls n continuing False s = Returns s' \<Longrightarrow> is_file (log_path self n) s'"
  by (auto simp: write_data_append_eq is_file_def read_write_text)

text \<open>
  Called with an optimizer name other than \<^verbatim>\<open>adam\<close> and \<^verbatim>\<open>SGD\<close>, such as
  \<^verbatim>\<open>rmsprop\<close>, \<^verbatim>\<open>setup_optimization\<close> fails with the \<^verbatim>\<open>IOError\<close> that names the
  optimizer, and when it raises the experiment's log file is gone: this holds for a
  performance directory whose path holds no character special to glob.
\<close>

lemma setup_optimization_unsupported_optimizer:
  assumes "optimizer_name \<notin> set [''adam'', ''SGD'']"
    and "glob_literal (Performance_dir self)"
  shows "\<exists>s'. setup_optimization str_float self optimizer_name scheduler_name learning_rate
                 factor threshold patience step_size gamma s
               = Raises (IOError (''Support only for Adam and SGD for now! Found: ''
                                   @ optimizer_name)) s'
             \<and> \<not> is_file (log_path self (exp_no self)) s'"
proof -
  let ?self1 = "self\<lparr>lr := Some learning_rate\<rparr>"
  obtain s1 where w: "write_data ?self1
                (Lines [''Optimizer name: '' @ optimizer_name,
                        ''Scheduler name: '' @ scheduler_name,
                        ''Starting Learning rate: '' @ str_float learning_rate])
                (exp_no ?self1) True False s = Returns s1"
    by (simp add: write_data_append_eq)
  have "is_file (log_path ?self1 (exp_no ?self1)) s1"
    using w by (rule write_data_append_is_file)
  from delete_file_keep_stats_returns [OF this]
  obtain s2 where d: "delete_file ?self1 (exp_no ?self1) False s1 = Returns s2" by blast
  have "\<not> is_file (log_path ?self1 (exp_no ?self1)) s2"
    using d by (rule delete_file_removes_log)
  then have gone: "\<not> is_file (log_path self (exp_no self)) s2"
    by (simp add: log_path_def Experiment_info_dir_def)
  have "setup_optimization str_float self optimizer_name scheduler_name learning_rate
          factor threshold patience step_size gamma s
        = Raises (IOError (''Support only for Adam and SGD for now! Found: ''
                            @ optimizer_name)) s2"
    using assms(1) w d by (simp add: setup_optimization_def Let_def)
  with gone show ?thesis by blast
qed

section \<open>What the log writer and the deletion leave on disk\<close>

lemma is_file_write_text: "is_file q s \<Longrightarrow> is_file q (write_text p t s)"
  by (simp add: is_file_def read_write_text)

lemma is_file_makedirs: "is_file q (makedirs d s) = is_file q s"
  by (simp add: is_file_def read_text_makedirs)

lemma isdir_write_text: "isdir d (write_text p t s) = isdir d s"
  by (simp add: isdir_def write_text_def)

lemma isdir_makedirs: "isdir d (makedirs d' s) = (d = d' \<or> isdir d s)"
  by (auto simp: isdir_def makedirs_def)

lemma write_data_Raises_disk:
  "write_data self ls n c r s = Raises err s' \<Longrightarrow>
     s' = (if isdir (Experiment_info_dir self) s then s else makedirs (Experiment_info_dir self) s)"
  by (auto simp: write_data_def Let_def split: if_splits lines.splits option.splits)

lemma write_data_Returns_disk:
  "write_data self ls n c r s = Returns s' \<Longrightarrow>
     \<exists>t. s' = write_text (log_path self n) t
            (if isdir (Experiment_info_dir self) s then s else makedirs (Experiment_info_dir self) s)"
  by (auto simp: write_data_def Let_def split: if_splits lines.splits option.splits)

lemma write_data_keeps_Returns:
  "is_file q s \<Longrightarrow> write_data self ls n c r s = Returns s' \<Longrightarrow> is_file q s'"
  by (auto dest!: write_data_Returns_disk simp: is_file_write_text is_file_makedirs)

lemma write_data_keeps_Raises:
  "is_file q s \<Longrightarrow> write_data self ls n c r s = Raises err s' \<Longrightarrow> is_file q s'"
  by (auto dest!: write_data_Raises_disk simp: is_file_makedirs)

lemma write_data_keeps_dir_Returns:
  "isdir d s \<Longrightarrow> write_data self ls n c r s = Returns s' \<Longrightarrow> isdir d s'"
  by (auto dest!: write_data_Returns_disk simp: isdir_write_text isdir_makedirs)




lemma log_not_under_stats:
  "\<not> prefix (model_stats_dir self n @ [bs]) (log_path self m)"
  by (simp add: model_stats_dir_def log_path_def Experiment_info_dir_def)

lemma read_text_rmtree:
  "rmtree d s = Some s' \<Longrightarrow> \<not> prefix (d @ [bs]) q \<Longrightarrow> read_text q s' = read_text q s"
proof -
  assume r: "rmtree d s = Some s'" and np: "\<not> prefix (d @ [bs]) q"
  have "map_of (filter (\<lambda>(p, t). \<not> prefix (d @ [bs]) p) xs) q = map_of xs q" for xs :: "(string \<times> string) list"
    using np by (induction xs) auto
  then show ?thesis using r by (auto simp: rmtree_def read_text_def split: if_splits)
qed

lemma delete_file_returns:
  assumes "is_file (log_path self n) s"
  shows "\<exists>s'. delete_file self n stats_delete s = Returns s'"
proof -
  define s1 where "s1 = (if stats_delete
               then (case rmtree (model_stats_dir self n) s of None \<Rightarrow> s | Some t \<Rightarrow> t)
               else s)"
  have "read_text (log_path self n) s1 = read_text (log_path self n) s"
    using read_text_rmtree [OF _ log_not_under_stats, of self n s _ n]
    by (auto simp: s1_def split: option.splits)
  then have "is_file (log_path self n) s1" using assms by (simp add: is_file_def)
  from log_path_in_glob [OF this] have "glob_txt (Experiment_info_dir self) s1 \<noteq> []" by auto
  then show ?thesis by (simp add: delete_file_def Let_def s1_def)
qed

section \<open>The improvement rule of an epoch (C1)\<close>

lemma fle_PosInf: "fle v PosInf = (v \<noteq> NaN)"
  by (cases v) simp_all










text \<open>
  The scenario of the specification: two epochs with validation losses 0.8 and 0.5 on a
  fresh start. Both are improvements; the checkpoint holds the second epoch's parameters,
  and the log holds the record once, with the values of the second improvement: the first
  improvement appended the lines, the second replaced them.
\<close>

lemma train_loop_two_improvements:
  "(case train_loop example_str_float example_classifier
          [\<lparr>valid_loss = Finite (4 / 5), cur_lr = Finite (1 / 100), state_dict = ''w1''\<rparr>,
           \<lparr>valid_loss = Finite (1 / 2), cur_lr = Finite (1 / 100), state_dict = ''w2''\<rparr>]
          \<lparr>valid_loss_min = Some PosInf, improvements = 0, disk = example_disk\<rparr> of
      Returns st' \<Rightarrow>
        improvements st' = 2 \<and> valid_loss_min st' = Some (Finite (1 / 2))
        \<and> read_text (checkpoint_path example_classifier) (disk st') = Some ''w2''
        \<and> read_text (log_path example_classifier 1) (disk st') =
            Some (''Previous Min Valid loss: 0.8'' @ [nl] @ ''Minimum Valid loss: 0.5'' @ [nl]
                  @ separator @ ''Best Learning rate that gave min valid loss: 0.01'' @ [nl]
                  @ separator)
    | Raises err s \<Rightarrow> False)"
  by code_simp

section \<open>Resuming without the prior-best loss (C5)\<close>

lemma train_loop_no_minimum:
  "valid_loss_min st = None \<Longrightarrow>
     train_loop str_float self (e # es) st = Raises TypeError (disk st)"
  by (simp add: epoch_step_def)

lemma train_start_load_prev:
  assumes "is_file lp s"
  shows "\<exists>s'. train_start self None (Some lp) v s = Returns (v, s')
              \<and> is_file (log_path self (exp_no self)) s'"
proof -
  obtain s' where w: "write_data self (Line (''Model Loaded from previous checkpoint: '' @ lp))
                        (exp_no self) False False s = Returns s'"
    by (simp add: write_data_append_eq)
  have "is_file (log_path self (exp_no self)) s'" using w by (rule write_data_append_is_file)
  moreover have "train_start self None (Some lp) v s = Returns (v, s')"
    using assms w by (simp add: train_start_def)
  ultimately show ?thesis by (intro exI conjI)
qed

lemma train_custom_path_without_loss:
  assumes cp: "is_file cp s" and lg: "is_file (log_path self (exp_no self)) s"
    and gl: "glob_literal (Performance_dir self)"
  shows "\<exists>s'. train str_float self epochs (Some cp) load_prev None test_report s
               = Raises (IOError
                   ''Expected Valid loss input when loading from custom path. Got None'') s'
             \<and> \<not> is_file (log_path self (exp_no self)) s'"
proof -
  define s1 where "s1 = (if isdir (checkpoint_dir self) s then s else makedirs (checkpoint_dir self) s)"
  have cp1: "is_file cp s1" using cp by (simp add: s1_def is_file_makedirs)
  have lg1: "is_file (log_path self (exp_no self)) s1" using lg by (simp add: s1_def is_file_makedirs)
  from delete_file_keep_stats_returns [OF lg1]
  obtain s' where d: "delete_file self (exp_no self) False s1 = Returns s'" ..
  have gone: "\<not> is_file (log_path self (exp_no self)) s'"
    using d by (rule delete_file_removes_log)
  have "train_start self (Some cp) load_prev None s1
          = Raises (IOError
              ''Expected Valid loss input when loading from custom path. Got None'') s'"
    using cp1 d by (simp add: train_start_def)
  then have "train str_float self epochs (Some cp) load_prev None test_report s
               = Raises (IOError
                   ''Expected Valid loss input when loading from custom path. Got None'') s'"
    by (simp add: train_def s1_def [symmetric] Let_def)
  with gone show ?thesis by (intro exI conjI)
qed

text \<open>
  C5 says that resuming from a previous checkpoint without the prior-best validation loss
  fails with a configuration error, as resuming from a custom checkpoint does. The
  \<^verbatim>\<open>load_prev\<close> branch (lines 432 to 436) has no such check. With a checkpoint file that
  exists and at least one epoch, \<^verbatim>\<open>train\<close> records the resumption in the log, runs the
  first epoch and raises the \<^verbatim>\<open>TypeError\<close> of comparing the epoch's loss with \<^verbatim>\<open>None\<close>;
  nothing is purged: the log and the metrics directory are on the disk it leaves.
\<close>

theorem train_load_prev_without_loss:
  assumes lp: "is_file lp s"
  shows "\<exists>s'. train str_float self (e # es) None (Some lp) None test_report s
               = Raises TypeError s'
             \<and> is_file (log_path self (exp_no self)) s'
             \<and> isdir (model_stats_dir self (exp_no self)) s'"
proof -
  define s1 where "s1 = (if isdir (checkpoint_dir self) s then s else makedirs (checkpoint_dir self) s)"
  have lp1: "is_file lp s1" using lp by (simp add: s1_def is_file_makedirs)
  from train_start_load_prev [OF lp1, of self None]
  obtain s2 where ts: "train_start self None (Some lp) None s1 = Returns (None, s2)"
    and lg2: "is_file (log_path self (exp_no self)) s2" by (elim exE conjE)
  define s3 where "s3 = (if isdir (model_stats_dir self (exp_no self)) s2 then s2
                       else makedirs (model_stats_dir self (exp_no self)) s2)"
  have lg3: "is_file (log_path self (exp_no self)) s3" using lg2 by (simp add: s3_def is_file_makedirs)
  have d3: "isdir (model_stats_dir self (exp_no self)) s3" by (simp add: s3_def isdir_makedirs)
  have tl: "train_loop str_float self (e # es)
              \<lparr>valid_loss_min = None, improvements = 0, disk = s3\<rparr> = Raises TypeError s3"
    using train_loop_no_minimum [of "\<lparr>valid_loss_min = None, improvements = 0, disk = s3\<rparr>"
        str_float self e es] by simp
  have "train str_float self (e # es) None (Some lp) None test_report s = Raises TypeError s3"
    unfolding train_def Let_def s1_def [symmetric] ts prod.case outcome.case
      s3_def [symmetric] tl by (rule refl)
  with lg3 d3 show ?thesis by (intro exI conjI)
qed

theorem train_load_prev_without_loss_witness:
  "is_file ''old.pth'' example_disk
   \<and> (\<exists>s'. train example_str_float example_classifier
               [\<lparr>valid_loss = Finite (4 / 5), cur_lr = Finite (1 / 100), state_dict = ''w1''\<rparr>]
               None (Some ''old.pth'') None [] example_disk
             = Raises TypeError s'
          \<and> is_file (log_path example_classifier (exp_no example_classifier)) s'
          \<and> isdir (model_stats_dir example_classifier (exp_no example_classifier)) s')"
proof -
  have f: "is_file ''old.pth'' example_disk" by code_simp
  from f train_load_prev_without_loss [OF f, of example_str_float example_classifier
      "\<lparr>valid_loss = Finite (4 / 5), cur_lr = Finite (1 / 100), state_dict = ''w1''\<rparr>"
      "[]" "[]"]
  show ?thesis by (rule conjI)
qed

text \<open>
  With no epoch to run the same call returns: the counter is zero, so the log is purged.
  The custom checkpoint does what C5 says, when the log exists.
\<close>

lemma train_load_prev_no_epochs:
  assumes lp: "is_file lp s" and gl: "glob_literal (Performance_dir self)"
  shows "\<exists>st. train str_float self [] None (Some lp) None test_report s = Returns st
             \<and> \<not> is_file (log_path self (exp_no self)) (disk st)"
proof -
  define s1 where "s1 = (if isdir (checkpoint_dir self) s then s else makedirs (checkpoint_dir self) s)"
  have lp1: "is_file lp s1" using lp by (simp add: s1_def is_file_makedirs)
  from train_start_load_prev [OF lp1, of self None]
  obtain s2 where ts: "train_start self None (Some lp) None s1 = Returns (None, s2)"
    and lg2: "is_file (log_path self (exp_no self)) s2" by (elim exE conjE)
  define s3 where "s3 = (if isdir (model_stats_dir self (exp_no self)) s2 then s2
                       else makedirs (model_stats_dir self (exp_no self)) s2)"
  have lg3: "is_file (log_path self (exp_no self)) s3" using lg2 by (simp add: s3_def is_file_makedirs)
  from delete_file_returns [OF lg3, of True]
  obtain s4 where d: "delete_file self (exp_no self) True s3 = Returns s4" ..
  have gone: "\<not> is_file (log_path self (exp_no self)) s4" using d by (rule delete_file_removes_log)
  have "train str_float self [] None (Some lp) None test_report s
          = Returns \<lparr>valid_loss_min = None, improvements = 0, disk = s4\<rparr>"
    unfolding train_def Let_def s1_def [symmetric] ts prod.case outcome.case
      s3_def [symmetric] train_loop.simps by (simp add: d)
  with gone show ?thesis by simp
qed

end
